theory Spec2Isabelle
  imports Complex_Main
begin

section \<open>Data model of the Pong component\<close>

text \<open>
  The embedding follows the first component of \<^verbatim>\<open>src/unnamed/part_000\<close> (lines 1 to 689).
  JavaScript numbers are modelled as real numbers: every constant of the program is a
  dyadic rational, and rounding, infinities and NaN are outside the model. The one place
  where the program can leave the reals on ordinary input, a division by the height of
  the container, returns \<open>None\<close> in the model.

  Record fields keep the names of the source, except where two interfaces share a name or
  where a one-letter field would capture the variables of every later statement:
  \<open>x\<close>, \<open>y\<close> of \<open>Ball\<close> are \<open>x_b\<close>, \<open>y_b\<close>; the rectangle literals of \<open>update\<close> have fields
  \<open>x_r\<close>, \<open>y_r\<close>, \<open>w_r\<close>, \<open>h_r\<close>; \<open>ball\<close> of \<open>NetworkState\<close> is \<open>ball_n\<close>; \<open>top\<close> and \<open>height\<close>
  of the bounding rectangle are \<open>top_d\<close>, \<open>height_d\<close>; the sound \<open>GAME_OVER\<close> is
  \<open>GAME_OVER_SOUND\<close>, since the game status of that name is a constructor as well.
\<close>

definition GAME_WIDTH :: real where "GAME_WIDTH = 800"
definition GAME_HEIGHT :: real where "GAME_HEIGHT = 600"
definition PADDLE_WIDTH :: real where "PADDLE_WIDTH = 15"
definition PADDLE_HEIGHT :: real where "PADDLE_HEIGHT = 80"
definition BALL_SIZE :: real where "BALL_SIZE = 12"
definition WINNING_SCORE :: int where "WINNING_SCORE = 11"
definition COMPUTER_SPEED :: real where "COMPUTER_SPEED = 6.5"
definition INITIAL_BALL_SPEED :: real where "INITIAL_BALL_SPEED = 7"
definition MAX_BALL_SPEED :: real where "MAX_BALL_SPEED = 14"
definition PADDLE_OFFSET :: real where "PADDLE_OFFSET = 35"

datatype Mode = SINGLE | HOST | CLIENT

datatype GameStatus = MENU | HOST_WAIT | JOIN_INPUT | PLAYING | GAME_OVER

datatype SoundType =
  PADDLE_HIT | WALL_HIT | SCORE_PLAYER | SCORE_ENEMY | GAME_OVER_SOUND | GAME_START

datatype Side = Left | Right

record Ball =
  x_b :: real
  y_b :: real
  dx :: real
  dy :: real
  speed :: real

record GameState =
  ball :: Ball
  paddleLeftY :: real
  paddleRightY :: real
  scoreLeft :: int
  scoreRight :: int
  isRunning :: bool
  isGameOver :: bool
  winner :: "string option"
  mode :: Mode

record NetworkState =
  ball_n :: Ball
  pLeft :: real
  pRight :: real
  sLeft :: int
  sRight :: int

text \<open>The wire messages \<open>{type, ...}\<close> of the two \<open>conn.on('data')\<close> handlers.\<close>

datatype Message =
  NICKNAME string
| INPUT real
| STATE NetworkState
| SOUND SoundType
| OVER string

text \<open>
  The part of \<open>uiState\<close> that the game logic writes. The component reads \<open>uiState\<close> and
  \<open>localNickname\<close> through the closure of the render that created the reading function,
  so the value read is an argument of that function here (\<open>localNickname\<close>,
  \<open>remoteNick\<close>, \<open>gameStatusSeen\<close>), and the record holds what \<open>setUiState\<close> wrote.
  Which values the animation frame passes is fixed by \<open>loop\<close> below.
\<close>

record UiState =
  scoreL :: int
  scoreR :: int
  gameStatus :: GameStatus
  winnerName :: "string option"
  remoteNickname :: string

text \<open>
  Everything the game logic mutates: \<open>gameState.current\<close>, \<open>uiState\<close>, the connection
  (\<open>None\<close> when \<open>connRef.current\<close> is null, otherwise its \<open>open\<close> flag), the messages
  handed to \<open>conn.send\<close> and the calls of \<open>playSound\<close>, both oldest first.
\<close>

record World =
  game :: GameState
  ui :: UiState
  conn :: "bool option"
  sent :: "Message list"
  played :: "SoundType list"

record Rect =
  x_r :: real
  y_r :: real
  w_r :: real
  h_r :: real

record DOMRect =
  top_d :: real
  height_d :: real

section \<open>Network helpers\<close>

definition playSound :: "SoundType \<Rightarrow> World \<Rightarrow> World" where
  "playSound t w = w\<lparr>played := played w @ [t]\<rparr>"

definition send :: "Message \<Rightarrow> World \<Rightarrow> World" where
  "send m w = w\<lparr>sent := sent w @ [m]\<rparr>"

definition sendHostUpdate :: "World \<Rightarrow> World" where
  "sendHostUpdate w =
     (if conn w = Some True then
        send (STATE \<lparr>ball_n = ball (game w), pLeft = paddleLeftY (game w),
                     pRight = paddleRightY (game w), sLeft = scoreLeft (game w),
                     sRight = scoreRight (game w)\<rparr>) w
      else w)"

definition sendClientInput :: "World \<Rightarrow> World" where
  "sendClientInput w =
     (if conn w = Some True then send (INPUT (paddleRightY (game w))) w else w)"

definition sendSound :: "SoundType \<Rightarrow> World \<Rightarrow> World" where
  "sendSound t w =
     (let w1 = playSound t w
      in if mode (game w1) = HOST \<and> conn w1 = Some True then send (SOUND t) w1 else w1)"

definition handleNetworkState :: "NetworkState \<Rightarrow> World \<Rightarrow> World" where
  "handleNetworkState netState w =
     (let state = (game w)\<lparr>scoreLeft := sLeft netState, scoreRight := sRight netState,
                            paddleLeftY := pLeft netState\<rparr>;
          b = ball state;
          dist = sqrt ((x_b b - x_b (ball_n netState))\<^sup>2 + (y_b b - y_b (ball_n netState))\<^sup>2);
          b1 = (if dist > 50 then
                  b\<lparr>x_b := x_b (ball_n netState), y_b := y_b (ball_n netState)\<rparr>
                else
                  b\<lparr>x_b := x_b b + (x_b (ball_n netState) - x_b b) * 0.5,
                    y_b := y_b b + (y_b (ball_n netState) - y_b b) * 0.5\<rparr>);
          b2 = b1\<lparr>dx := dx (ball_n netState), dy := dy (ball_n netState)\<rparr>;
          state1 = state\<lparr>ball := b2\<rparr>
      in w\<lparr>game := state1,
           ui := (ui w)\<lparr>scoreL := scoreLeft state1, scoreR := scoreRight state1\<rparr>\<rparr>)"

section \<open>Game logic\<close>

text \<open>\<open>r\<close> is the value that \<open>Math.random()\<close> returns in the call.\<close>

definition resetBall :: "Side \<Rightarrow> real \<Rightarrow> World \<Rightarrow> World" where
  "resetBall winnerSide r w =
     (let b = ball (game w);
          b1 = b\<lparr>x_b := GAME_WIDTH / 2 - BALL_SIZE / 2,
                 y_b := GAME_HEIGHT / 2 - BALL_SIZE / 2,
                 speed := INITIAL_BALL_SPEED\<rparr>;
          directionX = (if winnerSide = Left then 1 else - 1);
          directionY = (if r > 0.5 then 1 else - 1);
          b2 = b1\<lparr>dx := directionX * speed b1, dy := directionY * (speed b1 * 0.75)\<rparr>
      in w\<lparr>game := (game w)\<lparr>ball := b2\<rparr>\<rparr>)"

definition endGame :: "string \<Rightarrow> World \<Rightarrow> World" where
  "endGame name w =
     (let w1 = w\<lparr>game := (game w)\<lparr>isRunning := False, isGameOver := True,
                                   winner := Some name\<rparr>\<rparr>;
          w2 = w1\<lparr>ui := (ui w1)\<lparr>gameStatus := GAME_OVER, winnerName := Some name\<rparr>\<rparr>;
          w3 = (if mode (game w2) = HOST \<and> conn w2 \<noteq> None then send (OVER name) w2 else w2)
      in playSound GAME_OVER_SOUND w3)"

definition checkWinCondition :: "string \<Rightarrow> string \<Rightarrow> World \<Rightarrow> World" where
  "checkWinCondition localNickname remoteNick w =
     (let state = game w;
          w1 = w\<lparr>ui := (ui w)\<lparr>scoreL := scoreLeft state, scoreR := scoreRight state\<rparr>\<rparr>
      in if scoreLeft state \<ge> WINNING_SCORE then
           endGame (if mode state = CLIENT then remoteNick else localNickname) w1
         else if scoreRight state \<ge> WINNING_SCORE then
           endGame (if mode state = CLIENT then localNickname else remoteNick) w1
         else w1)"

text \<open>The phases of \<open>update\<close>, in the order of the source.\<close>

definition aiControl :: "World \<Rightarrow> World" where
  "aiControl w =
     (let state = game w;
          targetY = y_b (ball state) - PADDLE_HEIGHT / 2;
          p = (if targetY > paddleRightY state + 10 then paddleRightY state + COMPUTER_SPEED
               else if targetY < paddleRightY state - 10 then paddleRightY state - COMPUTER_SPEED
               else paddleRightY state)
      in w\<lparr>game := state\<lparr>paddleRightY := max 0 (min (GAME_HEIGHT - PADDLE_HEIGHT) p)\<rparr>\<rparr>)"

definition integrate :: "World \<Rightarrow> World" where
  "integrate w =
     (let b = ball (game w)
      in w\<lparr>game := (game w)\<lparr>ball := b\<lparr>x_b := x_b b + dx b, y_b := y_b b + dy b\<rparr>\<rparr>\<rparr>)"

definition wallCollision :: "World \<Rightarrow> World" where
  "wallCollision w =
     (let b = ball (game w)
      in if y_b b \<le> 0 \<or> y_b b + BALL_SIZE \<ge> GAME_HEIGHT then
           sendSound WALL_HIT
             (w\<lparr>game := (game w)\<lparr>ball :=
                  b\<lparr>dy := dy b * (- 1),
                    y_b := (if y_b b \<le> 0 then 0 else GAME_HEIGHT - BALL_SIZE)\<rparr>\<rparr>\<rparr>)
         else w)"

definition overlaps :: "Rect \<Rightarrow> Rect \<Rightarrow> bool" where
  "overlaps ballRect paddle \<longleftrightarrow>
     x_r ballRect < x_r paddle + w_r paddle \<and>
     x_r ballRect + w_r ballRect > x_r paddle \<and>
     y_r ballRect < y_r paddle + h_r paddle \<and>
     y_r ballRect + h_r ballRect > y_r paddle"

definition paddleLeftCollision :: "Rect \<Rightarrow> Rect \<Rightarrow> World \<Rightarrow> World" where
  "paddleLeftCollision ballRect paddleLeft w =
     (if overlaps ballRect paddleLeft then
        let b = ball (game w);
            b1 = b\<lparr>dx := \<bar>dx b\<bar>\<rparr>;
            hitPoint = y_r ballRect + h_r ballRect / 2 - (y_r paddleLeft + h_r paddleLeft / 2);
            b2 = b1\<lparr>dy := (hitPoint / (h_r paddleLeft / 2)) * 10\<rparr>;
            b3 = (if speed b2 < MAX_BALL_SPEED then
                    b2\<lparr>speed := speed b2 + 0.5, dx := speed b2 + 0.5\<rparr>
                  else b2)
        in sendSound PADDLE_HIT (w\<lparr>game := (game w)\<lparr>ball := b3\<rparr>\<rparr>)
      else w)"

definition paddleRightCollision :: "Rect \<Rightarrow> Rect \<Rightarrow> World \<Rightarrow> World" where
  "paddleRightCollision ballRect paddleRight w =
     (if overlaps ballRect paddleRight then
        let b = ball (game w);
            b1 = b\<lparr>dx := - \<bar>dx b\<bar>\<rparr>;
            hitPoint = y_r ballRect + h_r ballRect / 2 - (y_r paddleRight + h_r paddleRight / 2);
            b2 = b1\<lparr>dy := (hitPoint / (h_r paddleRight / 2)) * 10\<rparr>;
            b3 = (if speed b2 < MAX_BALL_SPEED then
                    b2\<lparr>speed := speed b2 + 0.5, dx := - (speed b2 + 0.5)\<rparr>
                  else b2)
        in sendSound PADDLE_HIT (w\<lparr>game := (game w)\<lparr>ball := b3\<rparr>\<rparr>)
      else w)"

definition scoring :: "string \<Rightarrow> string \<Rightarrow> real \<Rightarrow> World \<Rightarrow> World" where
  "scoring localNickname remoteNick r w =
     (if x_b (ball (game w)) < 0 then
        resetBall Right r
          (checkWinCondition localNickname remoteNick
             (sendSound SCORE_ENEMY
                (w\<lparr>game := (game w)\<lparr>scoreRight := scoreRight (game w) + 1\<rparr>\<rparr>)))
      else if x_b (ball (game w)) > GAME_WIDTH then
        resetBall Left r
          (checkWinCondition localNickname remoteNick
             (sendSound SCORE_PLAYER
                (w\<lparr>game := (game w)\<lparr>scoreLeft := scoreLeft (game w) + 1\<rparr>\<rparr>)))
      else w)"

text \<open>
  The state after the wall test, from which \<open>update\<close> builds the three rectangles; the
  paddle tests that follow change neither the position of the ball nor the paddles.
\<close>

definition beforePaddles :: "World \<Rightarrow> World" where
  "beforePaddles w =
     wallCollision (integrate (if mode (game w) = SINGLE then aiControl w else w))"

definition paddleLeftRect :: "World \<Rightarrow> Rect" where
  "paddleLeftRect w =
     \<lparr>x_r = PADDLE_OFFSET, y_r = paddleLeftY (game w), w_r = PADDLE_WIDTH, h_r = PADDLE_HEIGHT\<rparr>"

definition paddleRightRect :: "World \<Rightarrow> Rect" where
  "paddleRightRect w =
     \<lparr>x_r = GAME_WIDTH - PADDLE_OFFSET - PADDLE_WIDTH, y_r = paddleRightY (game w),
      w_r = PADDLE_WIDTH, h_r = PADDLE_HEIGHT\<rparr>"

definition ballRectOf :: "World \<Rightarrow> Rect" where
  "ballRectOf w =
     \<lparr>x_r = x_b (ball (game w)), y_r = y_b (ball (game w)), w_r = BALL_SIZE, h_r = BALL_SIZE\<rparr>"

definition update :: "string \<Rightarrow> string \<Rightarrow> real \<Rightarrow> World \<Rightarrow> World" where
  "update localNickname remoteNick r w =
     (if \<not> isRunning (game w) \<or> isGameOver (game w) then w
      else if mode (game w) = CLIENT then sendClientInput (integrate w)
      else
        let w3 = beforePaddles w;
            paddleLeft = paddleLeftRect w3;
            paddleRight = paddleRightRect w3;
            ballRect = ballRectOf w3;
            w4 = paddleLeftCollision ballRect paddleLeft w3;
            w5 = paddleRightCollision ballRect paddleRight w4;
            w6 = scoring localNickname remoteNick r w5
        in if mode (game w6) = HOST then sendHostUpdate w6 else w6)"

section \<open>Input and match start\<close>

text \<open>
  \<open>container\<close> is \<open>None\<close> when \<open>containerRef.current\<close> is null, otherwise the rectangle that
  \<open>getBoundingClientRect\<close> returns. With a height of 0 the program divides by zero and
  the offset it stores need not be a number; the model returns \<open>None\<close> there.
\<close>

definition handleInput ::
    "GameStatus \<Rightarrow> real \<Rightarrow> real \<Rightarrow> DOMRect option \<Rightarrow> World \<Rightarrow> World option" where
  "handleInput gameStatusSeen clientX clientY container w =
     (if \<not> isRunning (game w) \<and> gameStatusSeen \<noteq> PLAYING then Some w
      else case container of
        None \<Rightarrow> Some w
      | Some rect \<Rightarrow>
          if height_d rect = 0 then None
          else
            let scaleY = GAME_HEIGHT / height_d rect;
                relativeY = (clientY - top_d rect) * scaleY;
                newY = max 0 (min (GAME_HEIGHT - PADDLE_HEIGHT) (relativeY - PADDLE_HEIGHT / 2))
            in if mode (game w) = CLIENT then Some (w\<lparr>game := (game w)\<lparr>paddleRightY := newY\<rparr>\<rparr>)
               else Some (w\<lparr>game := (game w)\<lparr>paddleLeftY := newY\<rparr>\<rparr>))"

definition startGame :: "Mode \<Rightarrow> real \<Rightarrow> World \<Rightarrow> World" where
  "startGame m r w =
     (let w1 = w\<lparr>game :=
                 \<lparr>ball = \<lparr>x_b = GAME_WIDTH / 2, y_b = GAME_HEIGHT / 2, dx = INITIAL_BALL_SPEED,
                          dy = INITIAL_BALL_SPEED, speed = INITIAL_BALL_SPEED\<rparr>,
                  paddleLeftY = GAME_HEIGHT / 2 - PADDLE_HEIGHT / 2,
                  paddleRightY = GAME_HEIGHT / 2 - PADDLE_HEIGHT / 2,
                  scoreLeft = 0, scoreRight = 0, isRunning = True, isGameOver = False,
                  winner = None, mode = m\<rparr>\<rparr>;
          w2 = (if m = SINGLE then w1\<lparr>ui := (ui w1)\<lparr>remoteNickname := ''CPU''\<rparr>\<rparr> else w1);
          w3 = (if m \<noteq> CLIENT then
                  sendSound GAME_START
                    (if r > 0.5 then
                       w2\<lparr>game := (game w2)\<lparr>ball := (ball (game w2))\<lparr>dx := - INITIAL_BALL_SPEED\<rparr>\<rparr>\<rparr>
                     else w2)
                else w2)
      in w3\<lparr>ui := (ui w3)\<lparr>scoreL := 0, scoreR := 0, gameStatus := PLAYING,
                          winnerName := None\<rparr>\<rparr>)"

text \<open>The \<open>data\<close> handlers that \<open>startHost\<close> and \<open>joinGame\<close> register on the connection.\<close>

definition hostOnData :: "real \<Rightarrow> Message \<Rightarrow> World \<Rightarrow> World" where
  "hostOnData r msg w =
     (case msg of
        INPUT v \<Rightarrow> w\<lparr>game := (game w)\<lparr>paddleRightY := v\<rparr>\<rparr>
      | NICKNAME name \<Rightarrow>
          startGame HOST r (w\<lparr>ui := (ui w)\<lparr>remoteNickname := name, gameStatus := PLAYING\<rparr>\<rparr>)
      | _ \<Rightarrow> w)"

definition clientOnData :: "real \<Rightarrow> Message \<Rightarrow> World \<Rightarrow> World" where
  "clientOnData r msg w =
     (case msg of
        STATE netState \<Rightarrow> handleNetworkState netState w
      | SOUND t \<Rightarrow> playSound t w
      | OVER name \<Rightarrow> endGame name w
      | NICKNAME name \<Rightarrow>
          startGame CLIENT r (w\<lparr>ui := (ui w)\<lparr>remoteNickname := name, gameStatus := PLAYING\<rparr>\<rparr>)
      | _ \<Rightarrow> w)"

section \<open>Auxiliary notions and example states\<close>

text \<open>The initial value of \<open>gameState\<close> and \<open>uiState\<close>, before any match has started.\<close>

definition initialWorld :: World where
  "initialWorld =
     \<lparr>game = \<lparr>ball = \<lparr>x_b = GAME_WIDTH / 2, y_b = GAME_HEIGHT / 2, dx = INITIAL_BALL_SPEED,
                       dy = INITIAL_BALL_SPEED, speed = INITIAL_BALL_SPEED\<rparr>,
               paddleLeftY = GAME_HEIGHT / 2 - PADDLE_HEIGHT / 2,
               paddleRightY = GAME_HEIGHT / 2 - PADDLE_HEIGHT / 2,
               scoreLeft = 0, scoreRight = 0, isRunning = False, isGameOver = False,
               winner = None, mode = SINGLE\<rparr>,
      ui = \<lparr>scoreL = 0, scoreR = 0, gameStatus = MENU, winnerName = None,
             remoteNickname = ''CPU''\<rparr>,
      conn = None, sent = [], played = []\<rparr>"

text \<open>
  The callback of the animation frame. \<open>loop\<close> is memoised with an empty dependency list
  (\<open>useCallback(..., [])\<close>), so every frame runs the \<open>update\<close> of the first render, and
  with it the \<open>checkWinCondition\<close> of the first render: the \<open>localNickname\<close> it reads is the
  nickname at mount, and the \<open>uiState\<close> it reads is the initial one, whatever
  \<open>setUiState\<close> has stored since. The match state, the connection and the writes to
  \<open>uiState\<close> go through refs and functional updates and are current. Drawing is not
  modelled.
\<close>

definition loop :: "string \<Rightarrow> real \<Rightarrow> World \<Rightarrow> World" where
  "loop mountNickname r w = update mountNickname (remoteNickname (ui initialWorld)) r w"

text \<open>
  The distance that \<open>handleNetworkState\<close> computes between the predicted ball and the
  ball of the snapshot.
\<close>

definition ballDist :: "Ball \<Rightarrow> Ball \<Rightarrow> real" where
  "ballDist b c = sqrt ((x_b b - x_b c)\<^sup>2 + (y_b b - y_b c)\<^sup>2)"

definition clientWorld :: World where
  "clientWorld = startGame CLIENT 0 initialWorld"

definition farSnapshot :: NetworkState where
  "farSnapshot = \<lparr>ball_n = \<lparr>x_b = 460, y_b = 380, dx = - 7, dy = 7, speed = 7\<rparr>,
                   pLeft = 200, pRight = 260, sLeft = 1, sRight = 0\<rparr>"

definition nearSnapshot :: NetworkState where
  "nearSnapshot = \<lparr>ball_n = \<lparr>x_b = 430, y_b = 340, dx = 7.5, dy = 2, speed = 7.5\<rparr>,
                    pLeft = 200, pRight = 260, sLeft = 1, sRight = 0\<rparr>"

definition finishedWorld :: World where
  "finishedWorld = endGame ''ANN'' (startGame SINGLE 0 initialWorld)"

text \<open>
  A state with the ball replaced, used to write down example states.
\<close>

definition withBall :: "Ball \<Rightarrow> World \<Rightarrow> World" where
  "withBall b w = w\<lparr>game := (game w)\<lparr>ball := b\<rparr>\<rparr>"

subsection \<open>Names for parts of a tick\<close>

text \<open>
  The state of \<open>update\<close> after both paddle tests and before the scoring test, and
  the last step of \<open>update\<close>, the snapshot that only the HOST sends.
\<close>

definition beforeScoring :: "World \<Rightarrow> World" where
  "beforeScoring w =
     (let w3 = beforePaddles w
      in paddleRightCollision (ballRectOf w3) (paddleRightRect w3)
           (paddleLeftCollision (ballRectOf w3) (paddleLeftRect w3) w3))"

definition afterTick :: "World \<Rightarrow> World" where
  "afterTick w = (if mode (game w) = HOST then sendHostUpdate w else w)"

text \<open>
  The increment \<open>state.scoreLeft += 1\<close> of the scoring test.
\<close>

definition scoredLeft :: "World \<Rightarrow> World" where
  "scoredLeft w = w\<lparr>game := (game w)\<lparr>scoreLeft := scoreLeft (game w) + 1\<rparr>\<rparr>"

text \<open>
  Whether the scoring test of a tick fires, judged from the state before the tick: the
  test reads the position after integration, and nothing in between changes it.
\<close>

definition scoresLeftPoint :: "World \<Rightarrow> bool" where
  "scoresLeftPoint w \<longleftrightarrow> x_b (ball (game w)) + dx (ball (game w)) > GAME_WIDTH"

definition scoresRightPoint :: "World \<Rightarrow> bool" where
  "scoresRightPoint w \<longleftrightarrow> x_b (ball (game w)) + dx (ball (game w)) < 0"

text \<open>
  The vertical centres that \<open>update\<close> compares in \<open>hitPoint\<close>: of the ball
  (\<open>ballRect.y + ballRect.h / 2\<close>) and of a paddle (\<open>paddle.y + paddle.h / 2\<close>).
\<close>

definition ballCenterY :: "World \<Rightarrow> real" where
  "ballCenterY w = y_b (ball (game w)) + BALL_SIZE / 2"

definition paddleLeftCenterY :: "World \<Rightarrow> real" where
  "paddleLeftCenterY w = paddleLeftY (game w) + PADDLE_HEIGHT / 2"

definition paddleRightCenterY :: "World \<Rightarrow> real" where
  "paddleRightCenterY w = paddleRightY (game w) + PADDLE_HEIGHT / 2"

subsection \<open>Invariants\<close>

text \<open>
  The range of a paddle offset, and the states in which both offsets are in it.
\<close>

definition offsetInRange :: "real \<Rightarrow> bool" where
  "offsetInRange v \<longleftrightarrow> 0 \<le> v \<and> v \<le> GAME_HEIGHT - PADDLE_HEIGHT"

definition paddlesInRange :: "World \<Rightarrow> bool" where
  "paddlesInRange w \<longleftrightarrow>
     offsetInRange (paddleLeftY (game w)) \<and> offsetInRange (paddleRightY (game w))"

text \<open>
  The speeds a ball can have: the initial speed plus at most 14 increments of 0.5, the
  last of which reaches \<open>MAX_BALL_SPEED\<close>. \<open>ballInv\<close> adds that the speed is the
  magnitude of the horizontal velocity.
\<close>

definition speedOnGrid :: "real \<Rightarrow> bool" where
  "speedOnGrid v \<longleftrightarrow> v \<in> (\<lambda>k. INITIAL_BALL_SPEED + real k * 0.5) ` {0..14::nat}"

definition ballInv :: "Ball \<Rightarrow> bool" where
  "ballInv b \<longleftrightarrow> \<bar>dx b\<bar> = speed b \<and> speedOnGrid (speed b)"

text \<open>
  \<open>samePhys w w'\<close>: from \<open>w\<close> to \<open>w'\<close> only the ball, the right paddle and the logs
  of sounds and messages may differ, and no game-over sound was added.
\<close>

definition samePhys :: "World \<Rightarrow> World \<Rightarrow> bool" where
  "samePhys w w' \<longleftrightarrow>
     paddleLeftY (game w') = paddleLeftY (game w) \<and>
     scoreLeft (game w') = scoreLeft (game w) \<and>
     scoreRight (game w') = scoreRight (game w) \<and>
     isRunning (game w') = isRunning (game w) \<and>
     isGameOver (game w') = isGameOver (game w) \<and>
     winner (game w') = winner (game w) \<and>
     mode (game w') = mode (game w) \<and>
     ui w' = ui w \<and> conn w' = conn w \<and>
     count_list (played w') GAME_OVER_SOUND = count_list (played w) GAME_OVER_SOUND"

subsection \<open>Events\<close>

text \<open>
  What the browser delivers to the component: an animation frame (with the value of
  \<open>Math.random()\<close> that a ball reset in it would draw), a pointer event (with the game
  status its handler sees and the bounding rectangle of the container), a message on the
  connection of a host or of a client, and the menu button that starts a single-player
  match. \<open>run\<close> delivers a list of events in order; it is \<open>None\<close> when a pointer event
  meets a container of height 0.
\<close>

datatype Event =
  Tick real
| Pointer GameStatus real real "DOMRect option"
| HostData real Message
| ClientData real Message
| StartSingle real

fun step :: "string \<Rightarrow> string \<Rightarrow> Event \<Rightarrow> World \<Rightarrow> World option" where
  "step lnm rnm (Tick r) w = Some (update lnm rnm r w)"
| "step lnm rnm (Pointer gs cx cy c) w = handleInput gs cx cy c w"
| "step lnm rnm (HostData r m) w = Some (hostOnData r m w)"
| "step lnm rnm (ClientData r m) w = Some (clientOnData r m w)"
| "step lnm rnm (StartSingle r) w = Some (startGame SINGLE r w)"

fun run :: "string \<Rightarrow> string \<Rightarrow> Event list \<Rightarrow> World \<Rightarrow> World option" where
  "run lnm rnm [] w = Some w"
| "run lnm rnm (e # es) w =
     (case step lnm rnm e w of None \<Rightarrow> None | Some w' \<Rightarrow> run lnm rnm es w')"

text \<open>
  Events whose INPUT value or snapshot left-paddle offset is in the range of an offset;
  events of one match on the authoritative side (ticks, pointer input, INPUT messages);
  events that an authoritative peer can receive (all but the messages of the client
  handler).
\<close>

fun carriesInRange :: "Event \<Rightarrow> bool" where
  "carriesInRange (HostData r (INPUT v)) = offsetInRange v"
| "carriesInRange (ClientData r (STATE ns)) = offsetInRange (pLeft ns)"
| "carriesInRange e = True"

fun matchEvent :: "Event \<Rightarrow> bool" where
  "matchEvent (Tick r) = True"
| "matchEvent (Pointer gs cx cy c) = True"
| "matchEvent (HostData r (INPUT v)) = True"
| "matchEvent e = False"

fun authEvent :: "Event \<Rightarrow> bool" where
  "authEvent (ClientData r m) = False"
| "authEvent e = True"

text \<open>
  The state of one match on the authoritative side, where \<open>c\<close> is the number of
  game-over sounds played before the match: either the match is running with both scores
  below the threshold and no further game-over sound, or it ended with exactly one more
  and the winner is the name of the side at the threshold.
\<close>

definition matchInv :: "nat \<Rightarrow> string \<Rightarrow> string \<Rightarrow> World \<Rightarrow> bool" where
  "matchInv c lnm rnm w \<longleftrightarrow>
     mode (game w) \<noteq> CLIENT \<and>
     (if isGameOver (game w)
      then \<not> isRunning (game w) \<and> count_list (played w) GAME_OVER_SOUND = c + 1 \<and>
           (if scoreLeft (game w) \<ge> WINNING_SCORE then winner (game w) = Some lnm
            else scoreRight (game w) \<ge> WINNING_SCORE \<and> winner (game w) = Some rnm)
      else isRunning (game w) \<and> count_list (played w) GAME_OVER_SOUND = c \<and>
           scoreLeft (game w) < WINNING_SCORE \<and> scoreRight (game w) < WINNING_SCORE)"

subsection \<open>Example states\<close>

definition hostWorld :: World where
  "hostWorld = startGame HOST 0 (initialWorld\<lparr>conn := Some True\<rparr>)"

definition singleWorld :: World where
  "singleWorld = startGame SINGLE 0 initialWorld"

definition secondTickWorld :: World where
  "secondTickWorld = update ''ANN'' ''CPU'' 0 singleWorld"

definition hostBeforeHit :: World where
  "hostBeforeHit = withBall \<lparr>x_b = 55, y_b = 291, dx = - 7, dy = 3, speed = 7\<rparr> hostWorld"

definition hostAfterHit :: World where
  "hostAfterHit = update ''ANN'' ''BOB'' 0 hostBeforeHit"

definition clientAfterHit :: World where
  "clientAfterHit = clientOnData 0 (last (sent hostAfterHit)) clientWorld"

definition leftHitWorld :: World where
  "leftHitWorld = withBall \<lparr>x_b = 55, y_b = 291, dx = - 7, dy = 3, speed = 7\<rparr> singleWorld"

definition rightHitWorld :: World where
  "rightHitWorld = withBall \<lparr>x_b = 733, y_b = 291, dx = 7, dy = 3, speed = 7\<rparr> singleWorld"

definition offCentreWorld :: World where
  "offCentreWorld = withBall \<lparr>x_b = 55, y_b = 301, dx = - 7, dy = 3, speed = 7\<rparr> singleWorld"

definition rightEdgeWorld :: World where
  "rightEdgeWorld = withBall \<lparr>x_b = 795, y_b = 300, dx = 7, dy = 7, speed = 7\<rparr> singleWorld"

definition matchPointWorld :: World where
  "matchPointWorld =
     (let w = withBall \<lparr>x_b = 795, y_b = 300, dx = 7, dy = 7, speed = 7\<rparr> singleWorld
      in w\<lparr>game := (game w)\<lparr>scoreLeft := 10\<rparr>\<rparr>)"

definition lowBallWorld :: World where
  "lowBallWorld = withBall \<lparr>x_b = 400, y_b = 400, dx = 7, dy = 7, speed = 7\<rparr> singleWorld"

definition highBallWorld :: World where
  "highBallWorld = withBall \<lparr>x_b = 400, y_b = 100, dx = 7, dy = 7, speed = 7\<rparr> singleWorld"

text \<open>
  A HOST match started by the handshake message of a client named BOB, and the same
  match at match point for the right side, with the ball about to cross the left edge.
\<close>

definition bobHostWorld :: World where
  "bobHostWorld = hostOnData 0.7 (NICKNAME ''BOB'') (initialWorld\<lparr>conn := Some True\<rparr>)"

definition bobMatchPoint :: World where
  "bobMatchPoint =
     (let w = withBall \<lparr>x_b = 5, y_b = 300, dx = - 7, dy = 7, speed = 7\<rparr> bobHostWorld
      in w\<lparr>game := (game w)\<lparr>scoreRight := 10\<rparr>\<rparr>)"

section \<open>Basic facts\<close>

lemmas constants =
  GAME_WIDTH_def GAME_HEIGHT_def PADDLE_WIDTH_def PADDLE_HEIGHT_def BALL_SIZE_def
  WINNING_SCORE_def COMPUTER_SPEED_def INITIAL_BALL_SPEED_def MAX_BALL_SPEED_def
  PADDLE_OFFSET_def

lemma update_stopped:
  "isGameOver (game w) \<or> \<not> isRunning (game w) \<Longrightarrow> update lnm rnm r w = w"
  by (auto simp: update_def)

lemma fold_update_stopped:
  "isGameOver (game w) \<or> \<not> isRunning (game w) \<Longrightarrow> fold (update lnm rnm) rs w = w"
  by (induction rs) (simp_all add: update_stopped)

lemma endGame_flags:
  "isGameOver (game (endGame name w))" "\<not> isRunning (game (endGame name w))"
  by (simp_all add: endGame_def playSound_def send_def Let_def)

subsection \<open>What the phases of a tick leave unchanged\<close>

lemma samePhys_refl: "samePhys w w"
  by (simp add: samePhys_def)

lemma samePhys_trans: "samePhys w w1 \<Longrightarrow> samePhys w1 w2 \<Longrightarrow> samePhys w w2"
  by (simp add: samePhys_def)

lemma sendSound_simps:
  "game (sendSound t w) = game w" "ui (sendSound t w) = ui w" "conn (sendSound t w) = conn w"
  "played (sendSound t w) = played w @ [t]"
  by (simp_all add: sendSound_def playSound_def send_def Let_def)

lemma sendHostUpdate_simps:
  "game (sendHostUpdate w) = game w" "ui (sendHostUpdate w) = ui w"
  "conn (sendHostUpdate w) = conn w" "played (sendHostUpdate w) = played w"
  by (simp_all add: sendHostUpdate_def send_def)

lemma samePhys_aiControl: "samePhys w (aiControl w)"
  by (simp add: samePhys_def aiControl_def Let_def)

lemma samePhys_integrate: "samePhys w (integrate w)"
  by (simp add: samePhys_def integrate_def Let_def)

lemma samePhys_wallCollision: "samePhys w (wallCollision w)"
  by (simp add: samePhys_def wallCollision_def Let_def sendSound_simps)

lemma samePhys_paddleLeftCollision: "samePhys w (paddleLeftCollision br pr w)"
  by (simp add: samePhys_def paddleLeftCollision_def Let_def sendSound_simps)

lemma samePhys_paddleRightCollision: "samePhys w (paddleRightCollision br pr w)"
  by (simp add: samePhys_def paddleRightCollision_def Let_def sendSound_simps)

lemma samePhys_beforePaddles: "samePhys w (beforePaddles w)"
  unfolding beforePaddles_def
  by (intro samePhys_trans[OF _ samePhys_wallCollision] samePhys_trans[OF _ samePhys_integrate])
     (simp add: samePhys_aiControl samePhys_refl)

lemma update_authoritative:
  "isRunning (game w) \<Longrightarrow> \<not> isGameOver (game w) \<Longrightarrow> mode (game w) \<noteq> CLIENT \<Longrightarrow>
   update lnm rnm r w =
     (let w6 = scoring lnm rnm r (beforeScoring w)
      in if mode (game w6) = HOST then sendHostUpdate w6 else w6)"
  by (simp add: update_def beforeScoring_def Let_def)

lemma samePhys_beforeScoring: "samePhys w (beforeScoring w)"
  unfolding beforeScoring_def Let_def
  by (intro samePhys_trans[OF _ samePhys_paddleRightCollision]
      samePhys_trans[OF _ samePhys_paddleLeftCollision] samePhys_beforePaddles)

subsection \<open>Paddle offsets\<close>

lemma paddleRightY_beforePaddles:
  "paddleRightY (game (beforePaddles w)) =
     (if mode (game w) = SINGLE then paddleRightY (game (aiControl w)) else paddleRightY (game w))"
  by (simp add: beforePaddles_def wallCollision_def integrate_def sendSound_simps Let_def)

lemma paddleRightY_collisions:
  "paddleRightY (game (paddleLeftCollision br pr w)) = paddleRightY (game w)"
  "paddleRightY (game (paddleRightCollision br pr w)) = paddleRightY (game w)"
  by (simp_all add: paddleLeftCollision_def paddleRightCollision_def sendSound_simps Let_def)

lemma paddleRightY_beforeScoring:
  "paddleRightY (game (beforeScoring w)) = paddleRightY (game (beforePaddles w))"
  by (simp add: beforeScoring_def Let_def paddleRightY_collisions)

lemma endGame_paddles:
  "paddleLeftY (game (endGame n w)) = paddleLeftY (game w)"
  "paddleRightY (game (endGame n w)) = paddleRightY (game w)"
  by (simp_all add: endGame_def playSound_def send_def Let_def)

lemma checkWinCondition_paddles:
  "paddleLeftY (game (checkWinCondition l n w)) = paddleLeftY (game w)"
  "paddleRightY (game (checkWinCondition l n w)) = paddleRightY (game w)"
  by (simp_all add: checkWinCondition_def Let_def endGame_paddles)

lemma resetBall_paddles:
  "paddleLeftY (game (resetBall sd r w)) = paddleLeftY (game w)"
  "paddleRightY (game (resetBall sd r w)) = paddleRightY (game w)"
  by (simp_all add: resetBall_def Let_def)

lemma scoring_paddles:
  "paddleLeftY (game (scoring l n r w)) = paddleLeftY (game w)"
  "paddleRightY (game (scoring l n r w)) = paddleRightY (game w)"
  by (simp_all add: scoring_def resetBall_paddles checkWinCondition_paddles sendSound_simps)

lemma update_paddleLeftY: "paddleLeftY (game (update lnm rnm r w)) = paddleLeftY (game w)"
proof (cases "isRunning (game w) \<and> \<not> isGameOver (game w) \<and> mode (game w) \<noteq> CLIENT")
  case True
  then show ?thesis
    using samePhys_beforeScoring[of w]
    by (simp add: update_authoritative Let_def sendHostUpdate_simps scoring_paddles samePhys_def)
next
  case False
  then show ?thesis
    by (auto simp: update_def sendClientInput_def integrate_def send_def Let_def)
qed

lemma update_paddleRightY:
  "paddleRightY (game (update lnm rnm r w)) =
     (if isRunning (game w) \<and> \<not> isGameOver (game w) \<and> mode (game w) = SINGLE
      then paddleRightY (game (aiControl w)) else paddleRightY (game w))"
proof (cases "isRunning (game w) \<and> \<not> isGameOver (game w) \<and> mode (game w) \<noteq> CLIENT")
  case True
  then show ?thesis
    by (simp add: update_authoritative Let_def sendHostUpdate_simps scoring_paddles
        paddleRightY_beforeScoring paddleRightY_beforePaddles)
next
  case False
  then show ?thesis
    by (auto simp: update_def sendClientInput_def integrate_def send_def Let_def)
qed

lemma aiControl_paddleRightY:
  "paddleRightY (game (aiControl w)) =
     max 0 (min (GAME_HEIGHT - PADDLE_HEIGHT)
       (if y_b (ball (game w)) - PADDLE_HEIGHT / 2 > paddleRightY (game w) + 10
        then paddleRightY (game w) + COMPUTER_SPEED
        else if y_b (ball (game w)) - PADDLE_HEIGHT / 2 < paddleRightY (game w) - 10
        then paddleRightY (game w) - COMPUTER_SPEED
        else paddleRightY (game w)))"
  by (simp add: aiControl_def Let_def)

lemma aiControl_inRange: "offsetInRange (paddleRightY (game (aiControl w)))"
  unfolding aiControl_paddleRightY by (simp add: offsetInRange_def constants)

lemma update_paddlesInRange: "paddlesInRange w \<Longrightarrow> paddlesInRange (update lnm rnm r w)"
  by (simp add: paddlesInRange_def update_paddleLeftY update_paddleRightY aiControl_inRange)

lemma handleInput_paddlesInRange:
  "paddlesInRange w \<Longrightarrow> handleInput gs cx cy c w = Some w' \<Longrightarrow> paddlesInRange w'"
  by (auto simp: handleInput_def paddlesInRange_def offsetInRange_def constants Let_def
      split: if_splits option.splits)

lemma startGame_paddlesInRange: "paddlesInRange (startGame m r w)"
  by (simp add: startGame_def paddlesInRange_def offsetInRange_def sendSound_simps constants Let_def)

lemma endGame_paddlesInRange: "paddlesInRange w \<Longrightarrow> paddlesInRange (endGame n w)"
  by (simp add: paddlesInRange_def endGame_paddles)

lemma hostOnData_INPUT:
  "paddleRightY (game (hostOnData r (INPUT v) w)) = v"
  "paddleLeftY (game (hostOnData r (INPUT v) w)) = paddleLeftY (game w)"
  by (simp_all add: hostOnData_def)

lemma step_paddlesInRange:
  assumes "paddlesInRange w" "carriesInRange e" "step lnm rnm e w = Some w'"
  shows "paddlesInRange w'"
proof (cases e)
  case (Tick r)
  then show ?thesis using assms by (auto simp: update_paddlesInRange)
next
  case (Pointer gs cx cy c)
  then show ?thesis using assms by (auto dest: handleInput_paddlesInRange)
next
  case (HostData r m)
  then show ?thesis
    using assms
    by (cases m)
      (auto simp: hostOnData_def startGame_paddlesInRange[unfolded paddlesInRange_def]
        paddlesInRange_def)
next
  case (ClientData r m)
  then show ?thesis
    using assms
    by (cases m)
      (auto simp: clientOnData_def startGame_paddlesInRange[unfolded paddlesInRange_def]
        endGame_paddles handleNetworkState_def playSound_def Let_def paddlesInRange_def)
next
  case (StartSingle r)
  then show ?thesis using assms by (auto simp: startGame_paddlesInRange)
qed

lemma run_paddlesInRange:
  "paddlesInRange w \<Longrightarrow> list_all carriesInRange es \<Longrightarrow> run lnm rnm es w = Some w' \<Longrightarrow>
   paddlesInRange w'"
proof (induction es arbitrary: w)
  case Nil
  then show ?case by simp
next
  case (Cons e es)
  then show ?case
    by (auto split: option.splits dest: step_paddlesInRange)
qed

subsection \<open>The ball through a tick\<close>

lemma beforePaddles_ball:
  "x_b (ball (game (beforePaddles w))) = x_b (ball (game w)) + dx (ball (game w))"
  "dx (ball (game (beforePaddles w))) = dx (ball (game w))"
  "speed (ball (game (beforePaddles w))) = speed (ball (game w))"
  by (simp_all add: beforePaddles_def wallCollision_def integrate_def aiControl_def
      sendSound_simps Let_def)

lemma collisions_position:
  "x_b (ball (game (paddleLeftCollision br pr w))) = x_b (ball (game w))"
  "y_b (ball (game (paddleLeftCollision br pr w))) = y_b (ball (game w))"
  "x_b (ball (game (paddleRightCollision br pr w))) = x_b (ball (game w))"
  "y_b (ball (game (paddleRightCollision br pr w))) = y_b (ball (game w))"
  by (simp_all add: paddleLeftCollision_def paddleRightCollision_def sendSound_simps Let_def)

lemma beforeScoring_x:
  "x_b (ball (game (beforeScoring w))) = x_b (ball (game w)) + dx (ball (game w))"
  by (simp add: beforeScoring_def Let_def collisions_position beforePaddles_ball)

lemma overlaps_left_x:
  "overlaps (ballRectOf w) (paddleLeftRect w) \<Longrightarrow>
     23 < x_b (ball (game w)) \<and> x_b (ball (game w)) < 50"
  by (simp add: overlaps_def ballRectOf_def paddleLeftRect_def constants)

lemma overlaps_right_x:
  "overlaps (ballRectOf w) (paddleRightRect w) \<Longrightarrow>
     738 < x_b (ball (game w)) \<and> x_b (ball (game w)) < 765"
  by (simp add: overlaps_def ballRectOf_def paddleRightRect_def constants)

lemma scoring_none:
  "0 \<le> x_b (ball (game w)) \<Longrightarrow> x_b (ball (game w)) \<le> GAME_WIDTH \<Longrightarrow> scoring l n r w = w"
  by (simp add: scoring_def)

lemma update_no_score:
  assumes "isRunning (game w)" "\<not> isGameOver (game w)" "mode (game w) \<noteq> CLIENT"
    and "0 \<le> x_b (ball (game w)) + dx (ball (game w))"
    and "x_b (ball (game w)) + dx (ball (game w)) \<le> GAME_WIDTH"
  shows "game (update lnm rnm r w) = game (beforeScoring w)"
proof -
  have "scoring lnm rnm r (beforeScoring w) = beforeScoring w"
    using assms(4,5) by (simp add: scoring_none beforeScoring_x)
  then show ?thesis
    using assms(1-3) by (simp add: update_authoritative Let_def sendHostUpdate_simps)
qed

lemma left_hit_ball:
  assumes "overlaps (ballRectOf w) (paddleLeftRect w)"
  shows "dy (ball (game (paddleRightCollision (ballRectOf w) (paddleRightRect w)
            (paddleLeftCollision (ballRectOf w) (paddleLeftRect w) w)))) =
          ((ballCenterY w - paddleLeftCenterY w) / (PADDLE_HEIGHT / 2)) * 10"
    and "dx (ball (game (paddleRightCollision (ballRectOf w) (paddleRightRect w)
            (paddleLeftCollision (ballRectOf w) (paddleLeftRect w) w)))) =
          (if speed (ball (game w)) < MAX_BALL_SPEED then speed (ball (game w)) + 0.5
           else \<bar>dx (ball (game w))\<bar>)"
proof -
  have no: "\<not> overlaps (ballRectOf w) (paddleRightRect w)"
    using overlaps_left_x[OF assms] overlaps_right_x[of w] by auto
  show "dy (ball (game (paddleRightCollision (ballRectOf w) (paddleRightRect w)
            (paddleLeftCollision (ballRectOf w) (paddleLeftRect w) w)))) =
          ((ballCenterY w - paddleLeftCenterY w) / (PADDLE_HEIGHT / 2)) * 10"
    using assms no
    by (simp add: paddleRightCollision_def paddleLeftCollision_def Let_def sendSound_simps
        ballCenterY_def paddleLeftCenterY_def ballRectOf_def paddleLeftRect_def)
  show "dx (ball (game (paddleRightCollision (ballRectOf w) (paddleRightRect w)
            (paddleLeftCollision (ballRectOf w) (paddleLeftRect w) w)))) =
          (if speed (ball (game w)) < MAX_BALL_SPEED then speed (ball (game w)) + 0.5
           else \<bar>dx (ball (game w))\<bar>)"
    using assms no
    by (simp add: paddleRightCollision_def paddleLeftCollision_def Let_def sendSound_simps)
qed

lemma right_hit_ball:
  assumes "overlaps (ballRectOf w) (paddleRightRect w)"
  shows "dy (ball (game (paddleRightCollision (ballRectOf w) (paddleRightRect w)
            (paddleLeftCollision (ballRectOf w) (paddleLeftRect w) w)))) =
          ((ballCenterY w - paddleRightCenterY w) / (PADDLE_HEIGHT / 2)) * 10"
    and "dx (ball (game (paddleRightCollision (ballRectOf w) (paddleRightRect w)
            (paddleLeftCollision (ballRectOf w) (paddleLeftRect w) w)))) =
          (if speed (ball (game w)) < MAX_BALL_SPEED then - (speed (ball (game w)) + 0.5)
           else - \<bar>dx (ball (game w))\<bar>)"
proof -
  have no: "\<not> overlaps (ballRectOf w) (paddleLeftRect w)"
    using overlaps_right_x[OF assms] overlaps_left_x[of w] by auto
  show "dy (ball (game (paddleRightCollision (ballRectOf w) (paddleRightRect w)
            (paddleLeftCollision (ballRectOf w) (paddleLeftRect w) w)))) =
          ((ballCenterY w - paddleRightCenterY w) / (PADDLE_HEIGHT / 2)) * 10"
    using assms no
    by (simp add: paddleRightCollision_def paddleLeftCollision_def Let_def sendSound_simps
        ballCenterY_def paddleRightCenterY_def ballRectOf_def paddleRightRect_def)
  show "dx (ball (game (paddleRightCollision (ballRectOf w) (paddleRightRect w)
            (paddleLeftCollision (ballRectOf w) (paddleLeftRect w) w)))) =
          (if speed (ball (game w)) < MAX_BALL_SPEED then - (speed (ball (game w)) + 0.5)
           else - \<bar>dx (ball (game w))\<bar>)"
    using assms no
    by (simp add: paddleRightCollision_def paddleLeftCollision_def Let_def sendSound_simps)
qed

lemma update_on_hit:
  assumes "isRunning (game w)" "\<not> isGameOver (game w)" "mode (game w) \<noteq> CLIENT"
    and "overlaps (ballRectOf (beforePaddles w)) (paddleLeftRect (beforePaddles w)) \<or>
         overlaps (ballRectOf (beforePaddles w)) (paddleRightRect (beforePaddles w))"
  shows "game (update lnm rnm r w) = game (beforeScoring w)"
proof -
  have "23 < x_b (ball (game (beforePaddles w))) \<and> x_b (ball (game (beforePaddles w))) < 765"
    using assms(4) overlaps_left_x[of "beforePaddles w"] overlaps_right_x[of "beforePaddles w"]
    by auto
  then have "0 \<le> x_b (ball (game w)) + dx (ball (game w))"
    and "x_b (ball (game w)) + dx (ball (game w)) \<le> GAME_WIDTH"
    by (simp_all add: beforePaddles_ball constants)
  then show ?thesis
    using assms(1-3) by (rule update_no_score[rotated 3])
qed

subsection \<open>Scoring and the win check\<close>

lemma checkWinCondition_fields:
  "scoreLeft (game (checkWinCondition l n w)) = scoreLeft (game w)"
  "scoreRight (game (checkWinCondition l n w)) = scoreRight (game w)"
  "mode (game (checkWinCondition l n w)) = mode (game w)"
  "ball (game (checkWinCondition l n w)) = ball (game w)"
  "conn (checkWinCondition l n w) = conn w"
  "isGameOver (game (checkWinCondition l n w)) =
     (scoreLeft (game w) \<ge> WINNING_SCORE \<or> scoreRight (game w) \<ge> WINNING_SCORE \<or>
      isGameOver (game w))"
  "isRunning (game (checkWinCondition l n w)) =
     (\<not> (scoreLeft (game w) \<ge> WINNING_SCORE \<or> scoreRight (game w) \<ge> WINNING_SCORE) \<and>
      isRunning (game w))"
  "winner (game (checkWinCondition l n w)) =
     (if scoreLeft (game w) \<ge> WINNING_SCORE
      then Some (if mode (game w) = CLIENT then n else l)
      else if scoreRight (game w) \<ge> WINNING_SCORE
      then Some (if mode (game w) = CLIENT then l else n)
      else winner (game w))"
  "gameStatus (ui (checkWinCondition l n w)) =
     (if scoreLeft (game w) \<ge> WINNING_SCORE \<or> scoreRight (game w) \<ge> WINNING_SCORE
      then GAME_OVER else gameStatus (ui w))"
  "winnerName (ui (checkWinCondition l n w)) =
     (if scoreLeft (game w) \<ge> WINNING_SCORE
      then Some (if mode (game w) = CLIENT then n else l)
      else if scoreRight (game w) \<ge> WINNING_SCORE
      then Some (if mode (game w) = CLIENT then l else n)
      else winnerName (ui w))"
  "played (checkWinCondition l n w) =
     played w @
     (if scoreLeft (game w) \<ge> WINNING_SCORE \<or> scoreRight (game w) \<ge> WINNING_SCORE
      then [GAME_OVER_SOUND] else [])"
  by (simp_all add: checkWinCondition_def endGame_def playSound_def send_def Let_def)

lemma resetBall_fields:
  "scoreLeft (game (resetBall sd r w)) = scoreLeft (game w)"
  "scoreRight (game (resetBall sd r w)) = scoreRight (game w)"
  "mode (game (resetBall sd r w)) = mode (game w)"
  "isGameOver (game (resetBall sd r w)) = isGameOver (game w)"
  "isRunning (game (resetBall sd r w)) = isRunning (game w)"
  "winner (game (resetBall sd r w)) = winner (game w)"
  "ui (resetBall sd r w) = ui w"
  "conn (resetBall sd r w) = conn w"
  "played (resetBall sd r w) = played w"
  "ball (game (resetBall sd r w)) =
     \<lparr>x_b = GAME_WIDTH / 2 - BALL_SIZE / 2, y_b = GAME_HEIGHT / 2 - BALL_SIZE / 2,
      dx = (if sd = Left then 1 else - 1) * INITIAL_BALL_SPEED,
      dy = (if r > 0.5 then 1 else - 1) * (INITIAL_BALL_SPEED * 0.75),
      speed = INITIAL_BALL_SPEED\<rparr>"
  by (simp_all add: resetBall_def Let_def)

lemma scoring_left_point:
  "x_b (ball (game w)) > GAME_WIDTH \<Longrightarrow>
   scoring l n r w =
     resetBall Left r (checkWinCondition l n (sendSound SCORE_PLAYER (scoredLeft w)))"
  by (simp add: scoring_def scoredLeft_def constants)

lemma no_hit_beyond_right:
  assumes "x_b (ball (game w)) > GAME_WIDTH"
  shows "paddleRightCollision (ballRectOf w) (paddleRightRect w)
           (paddleLeftCollision (ballRectOf w) (paddleLeftRect w) w) = w"
proof -
  have "\<not> overlaps (ballRectOf w) (paddleLeftRect w)"
    and "\<not> overlaps (ballRectOf w) (paddleRightRect w)"
    using assms overlaps_left_x[of w] overlaps_right_x[of w] by (auto simp: constants)
  then show ?thesis by (simp add: paddleLeftCollision_def paddleRightCollision_def)
qed

lemma update_left_point:
  assumes "isRunning (game w)" "\<not> isGameOver (game w)" "mode (game w) \<noteq> CLIENT"
    and "x_b (ball (game w)) + dx (ball (game w)) > GAME_WIDTH"
  shows "update lnm rnm r w =
     afterTick (resetBall Left r (checkWinCondition lnm rnm
       (sendSound SCORE_PLAYER (scoredLeft (beforePaddles w)))))"
proof -
  have x: "x_b (ball (game (beforePaddles w))) > GAME_WIDTH"
    using assms(4) by (simp add: beforePaddles_ball)
  have "beforeScoring w = beforePaddles w"
    unfolding beforeScoring_def Let_def by (rule no_hit_beyond_right[OF x])
  then show ?thesis
    using assms(1-3) x
    by (simp add: update_authoritative Let_def scoring_left_point afterTick_def)
qed

lemma afterTick_simps:
  "game (afterTick w) = game w" "ui (afterTick w) = ui w" "played (afterTick w) = played w"
  "conn (afterTick w) = conn w"
  by (simp_all add: afterTick_def sendHostUpdate_simps)

lemma scoredLeft_simps:
  "scoreLeft (game (scoredLeft w)) = scoreLeft (game w) + 1"
  "scoreRight (game (scoredLeft w)) = scoreRight (game w)"
  "mode (game (scoredLeft w)) = mode (game w)"
  "isGameOver (game (scoredLeft w)) = isGameOver (game w)"
  "isRunning (game (scoredLeft w)) = isRunning (game w)"
  by (simp_all add: scoredLeft_def)

lemma scoring_effect:
  "scoreLeft (game (scoring l n r w)) =
     scoreLeft (game w) +
     (if 0 \<le> x_b (ball (game w)) \<and> x_b (ball (game w)) > GAME_WIDTH then 1 else 0)"
  "scoreRight (game (scoring l n r w)) =
     scoreRight (game w) + (if x_b (ball (game w)) < 0 then 1 else 0)"
  "mode (game (scoring l n r w)) = mode (game w)"
  "conn (scoring l n r w) = conn w"
  by (simp_all add: scoring_def resetBall_fields checkWinCondition_fields sendSound_simps)

lemma scoring_flags:
  assumes "x_b (ball (game w)) < 0 \<or> x_b (ball (game w)) > GAME_WIDTH"
  shows
  "isGameOver (game (scoring l n r w)) =
     (scoreLeft (game (scoring l n r w)) \<ge> WINNING_SCORE \<or>
      scoreRight (game (scoring l n r w)) \<ge> WINNING_SCORE \<or> isGameOver (game w))"
  "isRunning (game (scoring l n r w)) =
     (\<not> (scoreLeft (game (scoring l n r w)) \<ge> WINNING_SCORE \<or>
         scoreRight (game (scoring l n r w)) \<ge> WINNING_SCORE) \<and> isRunning (game w))"
  "winner (game (scoring l n r w)) =
     (if scoreLeft (game (scoring l n r w)) \<ge> WINNING_SCORE
      then Some (if mode (game w) = CLIENT then n else l)
      else if scoreRight (game (scoring l n r w)) \<ge> WINNING_SCORE
      then Some (if mode (game w) = CLIENT then l else n)
      else winner (game w))"
  "gameStatus (ui (scoring l n r w)) =
     (if scoreLeft (game (scoring l n r w)) \<ge> WINNING_SCORE \<or>
         scoreRight (game (scoring l n r w)) \<ge> WINNING_SCORE
      then GAME_OVER else gameStatus (ui w))"
  "winnerName (ui (scoring l n r w)) =
     (if scoreLeft (game (scoring l n r w)) \<ge> WINNING_SCORE
      then Some (if mode (game w) = CLIENT then n else l)
      else if scoreRight (game (scoring l n r w)) \<ge> WINNING_SCORE
      then Some (if mode (game w) = CLIENT then l else n)
      else winnerName (ui w))"
  "count_list (played (scoring l n r w)) GAME_OVER_SOUND =
     count_list (played w) GAME_OVER_SOUND +
     (if scoreLeft (game (scoring l n r w)) \<ge> WINNING_SCORE \<or>
         scoreRight (game (scoring l n r w)) \<ge> WINNING_SCORE then 1 else 0)"
  using assms
  by (auto simp: scoring_def resetBall_fields checkWinCondition_fields sendSound_simps
      constants)

lemma update_scores:
  assumes "isRunning (game w)" "\<not> isGameOver (game w)" "mode (game w) \<noteq> CLIENT"
  shows
  "scoreLeft (game (update lnm rnm r w)) = scoreLeft (game w) + (if scoresLeftPoint w then 1 else 0)"
  "scoreRight (game (update lnm rnm r w)) = scoreRight (game w) + (if scoresRightPoint w then 1 else 0)"
  "mode (game (update lnm rnm r w)) = mode (game w)"
  using assms samePhys_beforeScoring[of w]
  by (auto simp: update_authoritative Let_def sendHostUpdate_simps scoring_effect
      beforeScoring_x samePhys_def scoresLeftPoint_def scoresRightPoint_def constants)

lemma update_quiet:
  assumes "isRunning (game w)" "\<not> isGameOver (game w)" "mode (game w) \<noteq> CLIENT"
    and "\<not> scoresLeftPoint w" "\<not> scoresRightPoint w"
  shows "isRunning (game (update lnm rnm r w))" "\<not> isGameOver (game (update lnm rnm r w))"
    "winner (game (update lnm rnm r w)) = winner (game w)"
    "ui (update lnm rnm r w) = ui w"
    "count_list (played (update lnm rnm r w)) GAME_OVER_SOUND =
       count_list (played w) GAME_OVER_SOUND"
proof -
  have x: "0 \<le> x_b (ball (game (beforeScoring w)))"
    "x_b (ball (game (beforeScoring w))) \<le> GAME_WIDTH"
    using assms(4,5) by (auto simp: beforeScoring_x scoresLeftPoint_def scoresRightPoint_def)
  have u: "update lnm rnm r w = afterTick (beforeScoring w)"
    using assms(1-3) samePhys_beforeScoring[of w]
    by (simp add: update_authoritative Let_def scoring_none[OF x] afterTick_def samePhys_def)
  show "isRunning (game (update lnm rnm r w))" "\<not> isGameOver (game (update lnm rnm r w))"
    "winner (game (update lnm rnm r w)) = winner (game w)"
    "ui (update lnm rnm r w) = ui w"
    "count_list (played (update lnm rnm r w)) GAME_OVER_SOUND =
       count_list (played w) GAME_OVER_SOUND"
    unfolding u using assms(1,2) samePhys_beforeScoring[of w]
    by (simp_all add: afterTick_simps samePhys_def)
qed

lemma update_point:
  assumes "isRunning (game w)" "\<not> isGameOver (game w)" "mode (game w) \<noteq> CLIENT"
    and "scoresLeftPoint w \<or> scoresRightPoint w"
  shows
  "isGameOver (game (update lnm rnm r w)) =
     (scoreLeft (game (update lnm rnm r w)) \<ge> WINNING_SCORE \<or>
      scoreRight (game (update lnm rnm r w)) \<ge> WINNING_SCORE)"
  "isRunning (game (update lnm rnm r w)) = (\<not> isGameOver (game (update lnm rnm r w)))"
  "winner (game (update lnm rnm r w)) =
     (if scoreLeft (game (update lnm rnm r w)) \<ge> WINNING_SCORE then Some lnm
      else if scoreRight (game (update lnm rnm r w)) \<ge> WINNING_SCORE then Some rnm
      else winner (game w))"
  "gameStatus (ui (update lnm rnm r w)) =
     (if isGameOver (game (update lnm rnm r w)) then GAME_OVER else gameStatus (ui w))"
  "winnerName (ui (update lnm rnm r w)) =
     (if scoreLeft (game (update lnm rnm r w)) \<ge> WINNING_SCORE then Some lnm
      else if scoreRight (game (update lnm rnm r w)) \<ge> WINNING_SCORE then Some rnm
      else winnerName (ui w))"
  "count_list (played (update lnm rnm r w)) GAME_OVER_SOUND =
     count_list (played w) GAME_OVER_SOUND +
     (if isGameOver (game (update lnm rnm r w)) then 1 else 0)"
proof -
  have x: "x_b (ball (game (beforeScoring w))) < 0 \<or>
     x_b (ball (game (beforeScoring w))) > GAME_WIDTH"
    using assms(4) by (auto simp: beforeScoring_x scoresLeftPoint_def scoresRightPoint_def)
  have u: "update lnm rnm r w = afterTick (scoring lnm rnm r (beforeScoring w))"
    using assms(1-3) by (simp add: update_authoritative Let_def afterTick_def)
  note f = scoring_flags[OF x, of lnm rnm r]
  have sp: "samePhys w (beforeScoring w)" by (rule samePhys_beforeScoring)
  show go: "isGameOver (game (update lnm rnm r w)) =
     (scoreLeft (game (update lnm rnm r w)) \<ge> WINNING_SCORE \<or>
      scoreRight (game (update lnm rnm r w)) \<ge> WINNING_SCORE)"
    unfolding u afterTick_simps f(1) using sp assms(2) by (simp add: samePhys_def)
  show "isRunning (game (update lnm rnm r w)) = (\<not> isGameOver (game (update lnm rnm r w)))"
    unfolding go unfolding u afterTick_simps f(2) using sp assms(1) by (simp add: samePhys_def)
  show "winner (game (update lnm rnm r w)) =
     (if scoreLeft (game (update lnm rnm r w)) \<ge> WINNING_SCORE then Some lnm
      else if scoreRight (game (update lnm rnm r w)) \<ge> WINNING_SCORE then Some rnm
      else winner (game w))"
    unfolding u afterTick_simps f(3) using sp assms(3) by (simp add: samePhys_def)
  show "gameStatus (ui (update lnm rnm r w)) =
     (if isGameOver (game (update lnm rnm r w)) then GAME_OVER else gameStatus (ui w))"
    unfolding go unfolding u afterTick_simps f(4) using sp by (simp add: samePhys_def)
  show "winnerName (ui (update lnm rnm r w)) =
     (if scoreLeft (game (update lnm rnm r w)) \<ge> WINNING_SCORE then Some lnm
      else if scoreRight (game (update lnm rnm r w)) \<ge> WINNING_SCORE then Some rnm
      else winnerName (ui w))"
    unfolding u afterTick_simps f(5) using sp assms(3) by (simp add: samePhys_def)
  show "count_list (played (update lnm rnm r w)) GAME_OVER_SOUND =
     count_list (played w) GAME_OVER_SOUND +
     (if isGameOver (game (update lnm rnm r w)) then 1 else 0)"
    unfolding go unfolding u afterTick_simps f(6) using sp by (simp add: samePhys_def)
qed

subsection \<open>One match on the authoritative side\<close>

lemma points_exclusive: "\<not> (scoresLeftPoint w \<and> scoresRightPoint w)"
  by (simp add: scoresLeftPoint_def scoresRightPoint_def constants)

lemma update_matchInv: "matchInv c lnm rnm w \<Longrightarrow> matchInv c lnm rnm (update lnm rnm r w)"
proof (cases "isGameOver (game w)")
  case True
  assume "matchInv c lnm rnm w"
  with True show ?thesis by (simp add: update_stopped)
next
  case False
  assume inv: "matchInv c lnm rnm w"
  with False have a: "isRunning (game w)" "\<not> isGameOver (game w)" "mode (game w) \<noteq> CLIENT"
    and sc: "scoreLeft (game w) < WINNING_SCORE" "scoreRight (game w) < WINNING_SCORE"
    and cnt: "count_list (played w) GAME_OVER_SOUND = c"
    by (simp_all add: matchInv_def)
  show ?thesis
  proof (cases "scoresLeftPoint w \<or> scoresRightPoint w")
    case False
    then show ?thesis
      using update_quiet[OF a, of lnm rnm r] update_scores[OF a, of lnm rnm r] sc cnt a(3)
      by (simp add: matchInv_def)
  next
    case True
    then show ?thesis
      using update_point[OF a True, of lnm rnm r] update_scores[OF a, of lnm rnm r] sc cnt
        points_exclusive[of w] a(3)
      by (auto simp: matchInv_def)
  qed
qed

lemma handleInput_frame:
  assumes "handleInput gs cx cy c w = Some w'"
  shows "ball (game w') = ball (game w)" "scoreLeft (game w') = scoreLeft (game w)"
    "scoreRight (game w') = scoreRight (game w)" "isRunning (game w') = isRunning (game w)"
    "isGameOver (game w') = isGameOver (game w)" "winner (game w') = winner (game w)"
    "mode (game w') = mode (game w)" "ui w' = ui w" "conn w' = conn w" "sent w' = sent w"
    "played w' = played w"
  using assms
  by (auto simp: handleInput_def Let_def split: if_splits option.splits)

lemma step_matchInv:
  "matchInv c lnm rnm w \<Longrightarrow> matchEvent e \<Longrightarrow> step lnm rnm e w = Some w' \<Longrightarrow>
   matchInv c lnm rnm w'"
proof (induction e rule: matchEvent.induct)
  case (1 r)
  then show ?case by (auto simp: update_matchInv)
next
  case (2 gs cx cy c)
  then show ?case using handleInput_frame[of gs cx cy c w w'] by (simp add: matchInv_def)
next
  case (3 r v)
  then show ?case by (auto simp: hostOnData_def matchInv_def split: if_splits)
qed simp_all

lemma run_matchInv:
  "matchInv c lnm rnm w \<Longrightarrow> list_all matchEvent es \<Longrightarrow> run lnm rnm es w = Some w' \<Longrightarrow>
   matchInv c lnm rnm w'"
proof (induction es arbitrary: w)
  case Nil
  then show ?case by simp
next
  case (Cons e es)
  then show ?case
    by (auto split: option.splits dest: step_matchInv)
qed

subsection \<open>The speed of the ball\<close>

lemma grid_bounds: "speedOnGrid v \<Longrightarrow> INITIAL_BALL_SPEED \<le> v \<and> v \<le> MAX_BALL_SPEED"
  by (auto simp: speedOnGrid_def constants)

lemma grid_initial: "speedOnGrid INITIAL_BALL_SPEED"
  by (simp add: speedOnGrid_def image_iff)

lemma grid_step:
  assumes "speedOnGrid v" "v < MAX_BALL_SPEED"
  shows "speedOnGrid (v + 0.5)"
proof -
  from assms(1) obtain k :: nat where k: "k \<le> 14" "v = INITIAL_BALL_SPEED + real k * 0.5"
    by (auto simp: speedOnGrid_def)
  with assms(2) have "k < 14" by (simp add: constants)
  then have "Suc k \<in> {0..14}" by simp
  moreover have "v + 0.5 = INITIAL_BALL_SPEED + real (Suc k) * 0.5"
    using k(2) by (simp add: field_simps)
  ultimately show ?thesis unfolding speedOnGrid_def by (rule image_eqI[rotated])
qed

lemma ballInv_same:
  "dx c = dx b \<Longrightarrow> speed c = speed b \<Longrightarrow> ballInv c = ballInv b"
  by (simp add: ballInv_def)

lemma ballInv_hit:
  assumes "ballInv b"
  shows "ballInv (if speed b < MAX_BALL_SPEED
                  then b\<lparr>dx := \<bar>dx b\<bar>, dy := v, speed := speed b + 0.5, dx := speed b + 0.5\<rparr>
                  else b\<lparr>dx := \<bar>dx b\<bar>, dy := v\<rparr>)"
    and "ballInv (if speed b < MAX_BALL_SPEED
                  then b\<lparr>dx := - \<bar>dx b\<bar>, dy := v, speed := speed b + 0.5, dx := - (speed b + 0.5)\<rparr>
                  else b\<lparr>dx := - \<bar>dx b\<bar>, dy := v\<rparr>)"
  using assms grid_step[of "speed b"] grid_bounds[of "speed b"]
  by (auto simp: ballInv_def constants)

lemma paddleLeftCollision_ball:
  "ball (game (paddleLeftCollision br pr w)) =
     (if overlaps br pr then
        (if speed (ball (game w)) < MAX_BALL_SPEED
         then (ball (game w))\<lparr>dx := \<bar>dx (ball (game w))\<bar>,
                dy := ((y_r br + h_r br / 2 - (y_r pr + h_r pr / 2)) / (h_r pr / 2)) * 10,
                speed := speed (ball (game w)) + 0.5, dx := speed (ball (game w)) + 0.5\<rparr>
         else (ball (game w))\<lparr>dx := \<bar>dx (ball (game w))\<bar>,
                dy := ((y_r br + h_r br / 2 - (y_r pr + h_r pr / 2)) / (h_r pr / 2)) * 10\<rparr>)
      else ball (game w))"
  by (simp add: paddleLeftCollision_def Let_def sendSound_simps)

lemma paddleRightCollision_ball:
  "ball (game (paddleRightCollision br pr w)) =
     (if overlaps br pr then
        (if speed (ball (game w)) < MAX_BALL_SPEED
         then (ball (game w))\<lparr>dx := - \<bar>dx (ball (game w))\<bar>,
                dy := ((y_r br + h_r br / 2 - (y_r pr + h_r pr / 2)) / (h_r pr / 2)) * 10,
                speed := speed (ball (game w)) + 0.5, dx := - (speed (ball (game w)) + 0.5)\<rparr>
         else (ball (game w))\<lparr>dx := - \<bar>dx (ball (game w))\<bar>,
                dy := ((y_r br + h_r br / 2 - (y_r pr + h_r pr / 2)) / (h_r pr / 2)) * 10\<rparr>)
      else ball (game w))"
  by (simp add: paddleRightCollision_def Let_def sendSound_simps)

lemma ballInv_paddleLeftCollision:
  "ballInv (ball (game w)) \<Longrightarrow> ballInv (ball (game (paddleLeftCollision br pr w)))"
  unfolding paddleLeftCollision_ball using ballInv_hit(1)[of "ball (game w)"] by simp

lemma ballInv_paddleRightCollision:
  "ballInv (ball (game w)) \<Longrightarrow> ballInv (ball (game (paddleRightCollision br pr w)))"
  unfolding paddleRightCollision_ball using ballInv_hit(2)[of "ball (game w)"] by simp

lemma speed_collisions:
  "speed (ball (game w)) \<le> speed (ball (game (paddleLeftCollision br pr w)))"
  "speed (ball (game w)) \<le> speed (ball (game (paddleRightCollision br pr w)))"
  unfolding paddleLeftCollision_ball paddleRightCollision_ball by simp_all

lemma ballInv_beforePaddles:
  "ballInv (ball (game (beforePaddles w))) = ballInv (ball (game w))"
  by (rule ballInv_same) (simp_all add: beforePaddles_ball)

lemma ballInv_beforeScoring:
  "ballInv (ball (game w)) \<Longrightarrow> ballInv (ball (game (beforeScoring w)))"
  unfolding beforeScoring_def Let_def
  by (intro ballInv_paddleRightCollision ballInv_paddleLeftCollision)
     (simp add: ballInv_beforePaddles)

lemma speed_beforeScoring:
  "speed (ball (game w)) \<le> speed (ball (game (beforeScoring w)))"
proof -
  have "speed (ball (game w)) = speed (ball (game (beforePaddles w)))"
    by (simp add: beforePaddles_ball)
  also have "\<dots> \<le> speed (ball (game (beforeScoring w)))"
    unfolding beforeScoring_def Let_def
    by (rule order_trans[OF speed_collisions(1) speed_collisions(2)])
  finally show ?thesis .
qed

lemma ballInv_reset: "ballInv (ball (game (resetBall sd r w)))"
  by (simp add: resetBall_fields ballInv_def grid_initial) (simp add: constants)

lemma ballInv_scoring:
  "ballInv (ball (game w)) \<Longrightarrow> ballInv (ball (game (scoring l n r w)))"
  by (simp add: scoring_def ballInv_reset)

lemma ballInv_startGame: "ballInv (ball (game (startGame m r w)))"
  by (simp add: startGame_def Let_def sendSound_simps ballInv_def grid_initial)
     (simp add: constants)

lemma startGame_mode: "mode (game (startGame m r w)) = m"
  by (simp add: startGame_def Let_def sendSound_simps)

lemma ballInv_update:
  assumes "mode (game w) \<noteq> CLIENT" "ballInv (ball (game w))"
  shows "ballInv (ball (game (update lnm rnm r w)))"
proof (cases "isRunning (game w) \<and> \<not> isGameOver (game w)")
  case True
  then show ?thesis
    using assms
    by (simp add: update_authoritative Let_def sendHostUpdate_simps ballInv_scoring
        ballInv_beforeScoring)
next
  case False
  then have "update lnm rnm r w = w" by (auto simp: update_def)
  then show ?thesis using assms(2) by simp
qed

lemma update_mode: "mode (game (update lnm rnm r w)) = mode (game w)"
proof (cases "isRunning (game w) \<and> \<not> isGameOver (game w) \<and> mode (game w) \<noteq> CLIENT")
  case True
  then show ?thesis by (simp add: update_scores)
next
  case False
  then show ?thesis
    by (auto simp: update_def sendClientInput_def integrate_def send_def Let_def)
qed

lemma speed_update_rally:
  assumes "mode (game w) \<noteq> CLIENT"
    and "scoreLeft (game (update lnm rnm r w)) = scoreLeft (game w)"
    and "scoreRight (game (update lnm rnm r w)) = scoreRight (game w)"
  shows "speed (ball (game w)) \<le> speed (ball (game (update lnm rnm r w)))"
proof (cases "isRunning (game w) \<and> \<not> isGameOver (game w)")
  case True
  with assms(1) have a: "isRunning (game w)" "\<not> isGameOver (game w)" "mode (game w) \<noteq> CLIENT"
    by simp_all
  have "\<not> scoresLeftPoint w" "\<not> scoresRightPoint w"
    using update_scores[OF a, of lnm rnm r] assms(2,3) by (auto split: if_splits)
  then have "0 \<le> x_b (ball (game w)) + dx (ball (game w))"
    "x_b (ball (game w)) + dx (ball (game w)) \<le> GAME_WIDTH"
    by (simp_all add: scoresLeftPoint_def scoresRightPoint_def)
  then have "game (update lnm rnm r w) = game (beforeScoring w)"
    by (rule update_no_score[OF a])
  then show ?thesis by (simp add: speed_beforeScoring)
next
  case False
  then have "update lnm rnm r w = w" by (auto simp: update_def)
  then show ?thesis by simp
qed

lemma step_ballInv:
  assumes "ballInv (ball (game w)) \<and> mode (game w) \<noteq> CLIENT" "authEvent e"
    "step lnm rnm e w = Some w'"
  shows "ballInv (ball (game w')) \<and> mode (game w') \<noteq> CLIENT"
proof (cases e)
  case (Tick r)
  then show ?thesis using assms by (auto simp: ballInv_update update_mode)
next
  case (Pointer gs cx cy c)
  then show ?thesis using assms handleInput_frame[of gs cx cy c w w'] by simp
next
  case (HostData r m)
  then show ?thesis
    using assms
    by (cases m) (auto simp: hostOnData_def ballInv_startGame startGame_mode)
next
  case (ClientData r m)
  then show ?thesis using assms by simp
next
  case (StartSingle r)
  then show ?thesis
    using assms by (auto simp: ballInv_startGame startGame_mode)
qed

lemma run_ballInv:
  "ballInv (ball (game w)) \<and> mode (game w) \<noteq> CLIENT \<Longrightarrow> list_all authEvent es \<Longrightarrow>
   run lnm rnm es w = Some w' \<Longrightarrow> ballInv (ball (game w')) \<and> mode (game w') \<noteq> CLIENT"
proof (induction es arbitrary: w)
  case Nil
  then show ?case by simp
next
  case (Cons e es)
  from Cons.prems obtain w1 where s: "step lnm rnm e w = Some w1"
    and r: "run lnm rnm es w1 = Some w'"
    by (auto split: option.splits)
  have "ballInv (ball (game w1)) \<and> mode (game w1) \<noteq> CLIENT"
    using step_ballInv[OF Cons.prems(1) _ s] Cons.prems(2) by simp
  then show ?case using Cons.IH[OF _ _ r] Cons.prems(2) by simp
qed

subsection \<open>The example states\<close>

lemmas model_defs =
  update_def beforePaddles_def aiControl_def integrate_def wallCollision_def
  paddleLeftCollision_def paddleRightCollision_def overlaps_def scoring_def
  paddleLeftRect_def paddleRightRect_def ballRectOf_def
  checkWinCondition_def endGame_def resetBall_def sendSound_def playSound_def send_def
  sendHostUpdate_def sendClientInput_def startGame_def initialWorld_def withBall_def
  Let_def constants

lemma singleWorld_eq:
  "singleWorld =
     \<lparr>game = \<lparr>ball = \<lparr>x_b = 400, y_b = 300, dx = 7, dy = 7, speed = 7\<rparr>,
               paddleLeftY = 260, paddleRightY = 260, scoreLeft = 0, scoreRight = 0,
               isRunning = True, isGameOver = False, winner = None, mode = SINGLE\<rparr>,
      ui = \<lparr>scoreL = 0, scoreR = 0, gameStatus = PLAYING, winnerName = None,
             remoteNickname = ''CPU''\<rparr>,
      conn = None, sent = [], played = [GAME_START]\<rparr>"
  by (simp add: singleWorld_def model_defs)

lemma hostWorld_eq:
  "hostWorld =
     \<lparr>game = \<lparr>ball = \<lparr>x_b = 400, y_b = 300, dx = 7, dy = 7, speed = 7\<rparr>,
               paddleLeftY = 260, paddleRightY = 260, scoreLeft = 0, scoreRight = 0,
               isRunning = True, isGameOver = False, winner = None, mode = HOST\<rparr>,
      ui = \<lparr>scoreL = 0, scoreR = 0, gameStatus = PLAYING, winnerName = None,
             remoteNickname = ''CPU''\<rparr>,
      conn = Some True, sent = [SOUND GAME_START], played = [GAME_START]\<rparr>"
  by (simp add: hostWorld_def model_defs)

lemma clientWorld_eq:
  "clientWorld =
     \<lparr>game = \<lparr>ball = \<lparr>x_b = 400, y_b = 300, dx = 7, dy = 7, speed = 7\<rparr>,
               paddleLeftY = 260, paddleRightY = 260, scoreLeft = 0, scoreRight = 0,
               isRunning = True, isGameOver = False, winner = None, mode = CLIENT\<rparr>,
      ui = \<lparr>scoreL = 0, scoreR = 0, gameStatus = PLAYING, winnerName = None,
             remoteNickname = ''CPU''\<rparr>,
      conn = None, sent = [], played = []\<rparr>"
  by (simp add: clientWorld_def model_defs)

lemma secondTickWorld_game:
  "game secondTickWorld =
     \<lparr>ball = \<lparr>x_b = 407, y_b = 307, dx = 7, dy = 7, speed = 7\<rparr>,
      paddleLeftY = 260, paddleRightY = 260, scoreLeft = 0, scoreRight = 0,
      isRunning = True, isGameOver = False, winner = None, mode = SINGLE\<rparr>"
  by (simp add: secondTickWorld_def singleWorld_eq model_defs)

lemma hostBeforeHit_eq:
  "hostBeforeHit =
     \<lparr>game = \<lparr>ball = \<lparr>x_b = 55, y_b = 291, dx = - 7, dy = 3, speed = 7\<rparr>,
               paddleLeftY = 260, paddleRightY = 260, scoreLeft = 0, scoreRight = 0,
               isRunning = True, isGameOver = False, winner = None, mode = HOST\<rparr>,
      ui = \<lparr>scoreL = 0, scoreR = 0, gameStatus = PLAYING, winnerName = None,
             remoteNickname = ''CPU''\<rparr>,
      conn = Some True, sent = [SOUND GAME_START], played = [GAME_START]\<rparr>"
  by (simp add: hostBeforeHit_def hostWorld_eq withBall_def)

lemma hostAfterHit_eq:
  "hostAfterHit =
     \<lparr>game = \<lparr>ball = \<lparr>x_b = 48, y_b = 294, dx = 7.5, dy = 0, speed = 7.5\<rparr>,
               paddleLeftY = 260, paddleRightY = 260, scoreLeft = 0, scoreRight = 0,
               isRunning = True, isGameOver = False, winner = None, mode = HOST\<rparr>,
      ui = \<lparr>scoreL = 0, scoreR = 0, gameStatus = PLAYING, winnerName = None,
             remoteNickname = ''CPU''\<rparr>,
      conn = Some True,
      sent = [SOUND GAME_START, SOUND PADDLE_HIT,
              STATE \<lparr>ball_n = \<lparr>x_b = 48, y_b = 294, dx = 7.5, dy = 0, speed = 7.5\<rparr>,
                     pLeft = 260, pRight = 260, sLeft = 0, sRight = 0\<rparr>],
      played = [GAME_START, PADDLE_HIT]\<rparr>"
  by (simp add: hostAfterHit_def hostBeforeHit_eq model_defs)

lemma rightEdgeWorld_game:
  "game rightEdgeWorld =
     \<lparr>ball = \<lparr>x_b = 795, y_b = 300, dx = 7, dy = 7, speed = 7\<rparr>,
      paddleLeftY = 260, paddleRightY = 260, scoreLeft = 0, scoreRight = 0,
      isRunning = True, isGameOver = False, winner = None, mode = SINGLE\<rparr>"
  by (simp add: rightEdgeWorld_def singleWorld_eq withBall_def)

lemma matchPointWorld_eq:
  "matchPointWorld =
     \<lparr>game = \<lparr>ball = \<lparr>x_b = 795, y_b = 300, dx = 7, dy = 7, speed = 7\<rparr>,
               paddleLeftY = 260, paddleRightY = 260, scoreLeft = 10, scoreRight = 0,
               isRunning = True, isGameOver = False, winner = None, mode = SINGLE\<rparr>,
      ui = \<lparr>scoreL = 0, scoreR = 0, gameStatus = PLAYING, winnerName = None,
             remoteNickname = ''CPU''\<rparr>,
      conn = None, sent = [], played = [GAME_START]\<rparr>"
  by (simp add: matchPointWorld_def singleWorld_eq withBall_def Let_def)

lemma lowBallWorld_game:
  "game lowBallWorld =
     \<lparr>ball = \<lparr>x_b = 400, y_b = 400, dx = 7, dy = 7, speed = 7\<rparr>,
      paddleLeftY = 260, paddleRightY = 260, scoreLeft = 0, scoreRight = 0,
      isRunning = True, isGameOver = False, winner = None, mode = SINGLE\<rparr>"
  by (simp add: lowBallWorld_def singleWorld_eq withBall_def)

lemma highBallWorld_game:
  "game highBallWorld =
     \<lparr>ball = \<lparr>x_b = 400, y_b = 100, dx = 7, dy = 7, speed = 7\<rparr>,
      paddleLeftY = 260, paddleRightY = 260, scoreLeft = 0, scoreRight = 0,
      isRunning = True, isGameOver = False, winner = None, mode = SINGLE\<rparr>"
  by (simp add: highBallWorld_def singleWorld_eq withBall_def)

lemma leftHitWorld_before:
  "game (beforePaddles leftHitWorld) =
     \<lparr>ball = \<lparr>x_b = 48, y_b = 294, dx = - 7, dy = 3, speed = 7\<rparr>,
      paddleLeftY = 260, paddleRightY = 260, scoreLeft = 0, scoreRight = 0,
      isRunning = True, isGameOver = False, winner = None, mode = SINGLE\<rparr>"
  by (simp add: leftHitWorld_def singleWorld_eq model_defs)

lemma offCentreWorld_before:
  "game (beforePaddles offCentreWorld) =
     \<lparr>ball = \<lparr>x_b = 48, y_b = 304, dx = - 7, dy = 3, speed = 7\<rparr>,
      paddleLeftY = 260, paddleRightY = 260, scoreLeft = 0, scoreRight = 0,
      isRunning = True, isGameOver = False, winner = None, mode = SINGLE\<rparr>"
  by (simp add: offCentreWorld_def singleWorld_eq model_defs)

lemma rightHitWorld_before:
  "game (beforePaddles rightHitWorld) =
     \<lparr>ball = \<lparr>x_b = 740, y_b = 294, dx = 7, dy = 3, speed = 7\<rparr>,
      paddleLeftY = 260, paddleRightY = 260, scoreLeft = 0, scoreRight = 0,
      isRunning = True, isGameOver = False, winner = None, mode = SINGLE\<rparr>"
  by (simp add: rightHitWorld_def singleWorld_eq model_defs)

subsection \<open>Reconciliation of the ball position\<close>

lemma hns_snap:
  "ballDist (ball (game w)) (ball_n ns) > 50 \<Longrightarrow>
   x_b (ball (game (handleNetworkState ns w))) = x_b (ball_n ns) \<and>
   y_b (ball (game (handleNetworkState ns w))) = y_b (ball_n ns)"
  by (simp add: handleNetworkState_def ballDist_def Let_def)

lemma hns_blend_pos:
  "ballDist (ball (game w)) (ball_n ns) \<le> 50 \<Longrightarrow>
   x_b (ball (game (handleNetworkState ns w))) = (x_b (ball (game w)) + x_b (ball_n ns)) / 2 \<and>
   y_b (ball (game (handleNetworkState ns w))) = (y_b (ball (game w)) + y_b (ball_n ns)) / 2"
  by (simp add: handleNetworkState_def ballDist_def Let_def field_simps)

lemma quarter_squares:
  "((a - c) / 2)\<^sup>2 + ((b - d) / 2)\<^sup>2 = ((a - c)\<^sup>2 + (b - d)\<^sup>2) / (4::real)"
  unfolding power_divide by (simp add: add_divide_distrib)

lemma half_dist_to_target:
  "sqrt (((a + c) / 2 - c)\<^sup>2 + ((b + d) / 2 - d)\<^sup>2) = sqrt ((a - c)\<^sup>2 + (b - d)\<^sup>2) / 2"
proof -
  have h1: "(a + c) / 2 - c = (a - c) / 2" and h2: "(b + d) / 2 - d = (b - d) / 2"
    by (simp_all add: field_simps)
  show ?thesis unfolding h1 h2 quarter_squares real_sqrt_divide by simp
qed

lemma half_dist_from_start:
  "sqrt ((a - (a + c) / 2)\<^sup>2 + (b - (b + d) / 2)\<^sup>2) = sqrt ((a - c)\<^sup>2 + (b - d)\<^sup>2) / 2"
proof -
  have h1: "a - (a + c) / 2 = (a - c) / 2" and h2: "b - (b + d) / 2 = (b - d) / 2"
    by (simp_all add: field_simps)
  show ?thesis unfolding h1 h2 quarter_squares real_sqrt_divide by simp
qed

lemma hns_blend_dist:
  assumes "ballDist (ball (game w)) (ball_n ns) \<le> 50"
  shows "ballDist (ball (game (handleNetworkState ns w))) (ball_n ns) =
         ballDist (ball (game w)) (ball_n ns) / 2"
proof -
  from hns_blend_pos[OF assms]
  have px: "x_b (ball (game (handleNetworkState ns w))) =
            (x_b (ball (game w)) + x_b (ball_n ns)) / 2"
    and py: "y_b (ball (game (handleNetworkState ns w))) =
             (y_b (ball (game w)) + y_b (ball_n ns)) / 2"
    by simp_all
  show ?thesis unfolding ballDist_def px py by (rule half_dist_to_target)
qed

lemma hns_blend_travel:
  assumes "ballDist (ball (game w)) (ball_n ns) \<le> 50"
  shows "ballDist (ball (game w)) (ball (game (handleNetworkState ns w))) =
         ballDist (ball (game w)) (ball_n ns) / 2"
proof -
  from hns_blend_pos[OF assms]
  have px: "x_b (ball (game (handleNetworkState ns w))) =
            (x_b (ball (game w)) + x_b (ball_n ns)) / 2"
    and py: "y_b (ball (game (handleNetworkState ns w))) =
             (y_b (ball (game w)) + y_b (ball_n ns)) / 2"
    by simp_all
  show ?thesis unfolding ballDist_def px py by (rule half_dist_from_start)
qed

lemma hns_iter_dist:
  "ballDist (ball (game w)) (ball_n ns) \<le> 50 \<Longrightarrow>
   ballDist (ball (game ((handleNetworkState ns ^^ n) w))) (ball_n ns) =
     ballDist (ball (game w)) (ball_n ns) / 2 ^ n"
proof (induction n)
  case 0
  then show ?case by simp
next
  case (Suc n)
  have nn: "0 \<le> ballDist (ball (game w)) (ball_n ns)"
    by (simp add: ballDist_def)
  have "ballDist (ball (game w)) (ball_n ns) / 2 ^ n \<le> ballDist (ball (game w)) (ball_n ns)"
    using divide_left_mono[of 1 "2 ^ n" "ballDist (ball (game w)) (ball_n ns)"] nn by simp
  with Suc have le: "ballDist (ball (game ((handleNetworkState ns ^^ n) w))) (ball_n ns) \<le> 50"
    by simp
  show ?case using hns_blend_dist[OF le] Suc by simp
qed

lemma sqrt_2500: "sqrt 2500 = 50"
  using real_sqrt_abs[of 50] by simp

lemma sqrt_10000: "sqrt 10000 = 100"
  using real_sqrt_abs[of 100] by simp

section \<open>Paddle offsets stay in range (claim C1)\<close>

text \<open>
  Claim C1 as stated does not hold for the HOST's handling of an INPUT message: the
  handler stores the received value as it is. From a freshly started HOST match, the
  message \<open>INPUT 1000\<close> leaves the right paddle offset at 1000, above the bound of 520,
  and the next tick (which runs no AI in HOST mode) keeps it there.
\<close>

theorem host_input_stored_unclamped:
  "paddlesInRange hostWorld \<and>
   paddleRightY (game (hostOnData 0 (INPUT 1000) hostWorld)) = 1000 \<and>
   \<not> paddlesInRange (hostOnData 0 (INPUT 1000) hostWorld) \<and>
   \<not> paddlesInRange (update ''ANN'' ''BOB'' 0 (hostOnData 0 (INPUT 1000) hostWorld))"
proof -
  have m: "isRunning (game (hostOnData 0 (INPUT 1000) hostWorld))"
    "mode (game (hostOnData 0 (INPUT 1000) hostWorld)) = HOST"
    by (simp_all add: hostOnData_def hostWorld_def startGame_def sendSound_simps)
  have a: "paddlesInRange hostWorld"
    by (simp add: hostWorld_def startGame_paddlesInRange)
  have b: "paddleRightY (game (hostOnData 0 (INPUT 1000) hostWorld)) = 1000"
    by (simp add: hostOnData_INPUT)
  have c: "paddleRightY (game (update ''ANN'' ''BOB'' 0 (hostOnData 0 (INPUT 1000) hostWorld)))
      = 1000"
    by (simp add: update_paddleRightY m b)
  show ?thesis
    using a by (simp add: paddlesInRange_def b c offsetInRange_def constants)
qed

text \<open>
  Claim C1, amended. From a state with both paddle offsets in
  \<open>[0, GAME_HEIGHT - PADDLE_HEIGHT]\<close>, a tick (including the AI movement of SINGLE mode) and
  a local pointer input leave both offsets in that range, and a pointer input stores an
  offset whenever the container has a height other than 0. The HOST stores the offset of a
  received INPUT message unchanged, so after the message the offsets are in range exactly
  when the received value is. Hence both offsets remain in range along every sequence of
  ticks, pointer inputs, match starts and messages in which every INPUT value and every
  snapshot's left paddle offset is in range.
\<close>

theorem paddles_stay_in_range:
  "paddlesInRange w \<Longrightarrow>
     paddlesInRange (update lnm rnm r w) \<and>
     (handleInput gs cx cy c w = Some w1 \<longrightarrow> paddlesInRange w1) \<and>
     ((case c of None \<Rightarrow> True | Some rect \<Rightarrow> height_d rect \<noteq> 0) \<longrightarrow>
        handleInput gs cx cy c w \<noteq> None) \<and>
     paddleRightY (game (hostOnData r (INPUT v) w)) = v \<and>
     paddleLeftY (game (hostOnData r (INPUT v) w)) = paddleLeftY (game w) \<and>
     paddlesInRange (hostOnData r (INPUT v) w) = offsetInRange v \<and>
     (list_all carriesInRange es \<and> run lnm rnm es w = Some w2 \<longrightarrow> paddlesInRange w2)"
proof -
  assume inv: "paddlesInRange w"
  have tot: "(case c of None \<Rightarrow> True | Some rect \<Rightarrow> height_d rect \<noteq> 0) \<longrightarrow>
      handleInput gs cx cy c w \<noteq> None"
    by (auto simp: handleInput_def Let_def split: option.splits)
  have host: "paddlesInRange (hostOnData r (INPUT v) w) = offsetInRange v"
    using inv by (simp add: paddlesInRange_def hostOnData_INPUT)
  show ?thesis
    using update_paddlesInRange[OF inv, of lnm rnm r]
      handleInput_paddlesInRange[OF inv, of gs cx cy c w1]
      run_paddlesInRange[OF inv, of es lnm rnm w2] tot host
    by (simp add: hostOnData_INPUT)
qed

theorem paddles_stay_in_range_witness:
  "paddlesInRange hostWorld \<and>
   paddlesInRange (update ''ANN'' ''BOB'' 0 hostWorld) \<and>
   handleInput PLAYING 10 500 (Some \<lparr>top_d = 0, height_d = 300\<rparr>) hostWorld =
     Some (hostWorld\<lparr>game := (game hostWorld)\<lparr>paddleLeftY := 520\<rparr>\<rparr>) \<and>
   paddlesInRange (hostWorld\<lparr>game := (game hostWorld)\<lparr>paddleLeftY := 520\<rparr>\<rparr>) \<and>
   offsetInRange 100 \<and>
   paddleRightY (game (hostOnData 0 (INPUT 100) hostWorld)) = 100 \<and>
   paddlesInRange (hostOnData 0 (INPUT 100) hostWorld) \<and>
   list_all carriesInRange [Tick 0, HostData 0 (INPUT 100), Tick 0] \<and>
   run ''ANN'' ''BOB'' [Tick 0, HostData 0 (INPUT 100), Tick 0] hostWorld =
     Some (update ''ANN'' ''BOB'' 0 (hostOnData 0 (INPUT 100) (update ''ANN'' ''BOB'' 0 hostWorld))) \<and>
   paddlesInRange
     (update ''ANN'' ''BOB'' 0 (hostOnData 0 (INPUT 100) (update ''ANN'' ''BOB'' 0 hostWorld)))"
proof -
  have h: "paddlesInRange hostWorld"
    by (simp add: hostWorld_eq paddlesInRange_def offsetInRange_def constants)
  have p: "handleInput PLAYING 10 500 (Some \<lparr>top_d = 0, height_d = 300\<rparr>) hostWorld =
     Some (hostWorld\<lparr>game := (game hostWorld)\<lparr>paddleLeftY := 520\<rparr>\<rparr>)"
    by (simp add: handleInput_def hostWorld_eq Let_def constants)
  have v: "offsetInRange 100"
    by (simp add: offsetInRange_def constants)
  have l: "list_all carriesInRange [Tick 0, HostData 0 (INPUT 100), Tick 0]"
    by (simp add: v)
  have r: "run ''ANN'' ''BOB'' [Tick 0, HostData 0 (INPUT 100), Tick 0] hostWorld =
     Some (update ''ANN'' ''BOB'' 0 (hostOnData 0 (INPUT 100) (update ''ANN'' ''BOB'' 0 hostWorld)))"
    by simp
  show ?thesis
    using h p v l r
      paddles_stay_in_range [where w = hostWorld and lnm = "''ANN''" and rnm = "''BOB''"
        and r = 0 and gs = PLAYING and cx = 10 and cy = 500
        and c = "Some \<lparr>top_d = 0, height_d = 300\<rparr>"
        and ?w1.0 = "hostWorld\<lparr>game := (game hostWorld)\<lparr>paddleLeftY := 520\<rparr>\<rparr>"
        and v = 100 and es = "[Tick 0, HostData 0 (INPUT 100), Tick 0]"
        and ?w2.0 = "update ''ANN'' ''BOB'' 0
                       (hostOnData 0 (INPUT 100) (update ''ANN'' ''BOB'' 0 hostWorld))"]
    by simp
qed

section \<open>Speed of the ball within a rally (claim C2)\<close>

text \<open>
  Claim C2 as stated does not hold in the CLIENT role: \<open>handleNetworkState\<close> copies the
  velocity of the snapshot but never its \<open>speed\<close>. After the HOST's ball has hit a paddle
  (speed and horizontal velocity 7.5), the CLIENT that applies the snapshot sent in that
  tick has horizontal velocity 7.5 and \<open>speed\<close> still 7.
\<close>

theorem client_speed_not_dx_magnitude:
  "mode (game clientAfterHit) = CLIENT \<and> isRunning (game clientAfterHit) \<and>
   speed (ball (game clientAfterHit)) = 7 \<and> dx (ball (game clientAfterHit)) = 7.5 \<and>
   \<bar>dx (ball (game clientAfterHit))\<bar> \<noteq> speed (ball (game clientAfterHit))"
  by (simp add: clientAfterHit_def hostAfterHit_eq clientWorld_eq clientOnData_def
      handleNetworkState_def Let_def)

text \<open>
  Claim C2, amended. In the authoritative roles (SINGLE and HOST), from a state whose
  \<open>speed\<close> is the magnitude of \<open>dx\<close> and is the initial speed plus a number of 0.5
  increments up to the maximum (\<open>ballInv\<close>, which every match start and every ball reset
  establishes), a tick keeps that: \<open>speed\<close> stays at most \<open>MAX_BALL_SPEED\<close> and equal to
  \<open>\<bar>dx\<bar>\<close>. In a tick without a score, that is without a ball reset, \<open>speed\<close> does not
  decrease. The same holds after every sequence of events that an authoritative peer
  receives. Reconciliation on the CLIENT leaves \<open>speed\<close> as it was.
\<close>

theorem authoritative_speed_invariant:
  assumes "mode (game w) \<noteq> CLIENT" "ballInv (ball (game w))"
  shows
    "ballInv (ball (game (update lnm rnm r w))) \<and>
     speed (ball (game (update lnm rnm r w))) \<le> MAX_BALL_SPEED \<and>
     \<bar>dx (ball (game (update lnm rnm r w)))\<bar> = speed (ball (game (update lnm rnm r w))) \<and>
     (scoreLeft (game (update lnm rnm r w)) = scoreLeft (game w) \<and>
      scoreRight (game (update lnm rnm r w)) = scoreRight (game w) \<longrightarrow>
        speed (ball (game w)) \<le> speed (ball (game (update lnm rnm r w)))) \<and>
     (list_all authEvent es \<and> run lnm rnm es w = Some w2 \<longrightarrow>
        \<bar>dx (ball (game w2))\<bar> = speed (ball (game w2)) \<and>
        speed (ball (game w2)) \<le> MAX_BALL_SPEED \<and> ballInv (ball (game w2))) \<and>
     ballInv (ball (game (startGame m r0 w0))) \<and>
     ballInv (ball (game (resetBall sd r1 w1))) \<and>
     speed (ball (game (handleNetworkState ns w3))) = speed (ball (game w3))"
proof -
  have c: "speed (ball (game (handleNetworkState ns w3))) = speed (ball (game w3))"
    by (simp add: handleNetworkState_def Let_def)
  have i: "ballInv (ball (game (update lnm rnm r w)))"
    by (rule ballInv_update[OF assms])
  have m: "scoreLeft (game (update lnm rnm r w)) = scoreLeft (game w) \<and>
      scoreRight (game (update lnm rnm r w)) = scoreRight (game w) \<longrightarrow>
        speed (ball (game w)) \<le> speed (ball (game (update lnm rnm r w)))"
    using speed_update_rally[OF assms(1)] by blast
  have t: "list_all authEvent es \<and> run lnm rnm es w = Some w2 \<longrightarrow> ballInv (ball (game w2))"
    using run_ballInv[of w es lnm rnm w2] assms by blast
  show ?thesis
    using i m t c grid_bounds[of "speed (ball (game (update lnm rnm r w)))"]
      grid_bounds[of "speed (ball (game w2))"]
      ballInv_startGame[of m r0 w0] ballInv_reset[of sd r1 w1]
    by (auto simp: ballInv_def)
qed

theorem authoritative_speed_invariant_witness:
  "mode (game hostBeforeHit) \<noteq> CLIENT \<and> ballInv (ball (game hostBeforeHit)) \<and>
   speed (ball (game hostBeforeHit)) = 7 \<and>
   speed (ball (game (update ''ANN'' ''BOB'' 0 hostBeforeHit))) = 7.5 \<and>
   speed (ball (game (update ''ANN'' ''BOB'' 0 hostBeforeHit))) \<le> MAX_BALL_SPEED \<and>
   \<bar>dx (ball (game (update ''ANN'' ''BOB'' 0 hostBeforeHit)))\<bar> =
     speed (ball (game (update ''ANN'' ''BOB'' 0 hostBeforeHit))) \<and>
   scoreLeft (game (update ''ANN'' ''BOB'' 0 hostBeforeHit)) = scoreLeft (game hostBeforeHit) \<and>
   scoreRight (game (update ''ANN'' ''BOB'' 0 hostBeforeHit)) = scoreRight (game hostBeforeHit) \<and>
   speed (ball (game hostBeforeHit)) \<le> speed (ball (game (update ''ANN'' ''BOB'' 0 hostBeforeHit))) \<and>
   list_all authEvent [Tick 0] \<and>
   run ''ANN'' ''BOB'' [Tick 0] hostBeforeHit = Some (update ''ANN'' ''BOB'' 0 hostBeforeHit) \<and>
   ballInv (ball (game (update ''ANN'' ''BOB'' 0 hostBeforeHit)))"
proof -
  have m: "mode (game hostBeforeHit) \<noteq> CLIENT"
    by (simp add: hostBeforeHit_eq)
  have i: "ballInv (ball (game hostBeforeHit))"
    using grid_initial by (simp add: ballInv_def hostBeforeHit_eq constants)
  have a: "update ''ANN'' ''BOB'' 0 hostBeforeHit = hostAfterHit"
    by (simp add: hostAfterHit_def)
  have l: "list_all authEvent [Tick 0]"
    by simp
  have r: "run ''ANN'' ''BOB'' [Tick 0] hostBeforeHit = Some (update ''ANN'' ''BOB'' 0 hostBeforeHit)"
    by simp
  have v: "speed (ball (game hostBeforeHit)) = 7" "speed (ball (game hostAfterHit)) = 7.5"
    "scoreLeft (game hostAfterHit) = scoreLeft (game hostBeforeHit)"
    "scoreRight (game hostAfterHit) = scoreRight (game hostBeforeHit)"
    by (simp_all add: hostBeforeHit_eq hostAfterHit_eq)
  show ?thesis
    using m i l r
      authoritative_speed_invariant [where w = hostBeforeHit and lnm = "''ANN''"
        and rnm = "''BOB''" and r = 0 and es = "[Tick 0]"
        and ?w2.0 = "update ''ANN'' ''BOB'' 0 hostBeforeHit"]
    by (simp add: a v)
qed

section \<open>Reconciliation of the ball position (claim C3)\<close>

text \<open>
  Claim C3. When \<open>handleNetworkState\<close> finds the predicted ball more than 50 units
  (Euclidean distance) from the ball of the snapshot, the predicted position becomes the
  snapshot's position exactly. Otherwise the predicted ball moves to the midpoint of the
  two positions: the remaining distance is half of what it was, the distance travelled
  and the distance remaining add up to the old distance (the ball stays on the segment
  and does not overshoot), and after \<open>n\<close> applications of the same snapshot the remaining
  distance is the initial one divided by \<open>2 ^ n\<close>.
\<close>

theorem reconcile_snap_or_halve:
  "(ballDist (ball (game w)) (ball_n ns) > 50 \<longrightarrow>
      x_b (ball (game (handleNetworkState ns w))) = x_b (ball_n ns) \<and>
      y_b (ball (game (handleNetworkState ns w))) = y_b (ball_n ns)) \<and>
   (ballDist (ball (game w)) (ball_n ns) \<le> 50 \<longrightarrow>
      x_b (ball (game (handleNetworkState ns w))) = (x_b (ball (game w)) + x_b (ball_n ns)) / 2 \<and>
      y_b (ball (game (handleNetworkState ns w))) = (y_b (ball (game w)) + y_b (ball_n ns)) / 2 \<and>
      ballDist (ball (game (handleNetworkState ns w))) (ball_n ns) =
        ballDist (ball (game w)) (ball_n ns) / 2 \<and>
      ballDist (ball (game w)) (ball (game (handleNetworkState ns w))) +
        ballDist (ball (game (handleNetworkState ns w))) (ball_n ns) =
        ballDist (ball (game w)) (ball_n ns) \<and>
      ballDist (ball (game ((handleNetworkState ns ^^ n) w))) (ball_n ns) =
        ballDist (ball (game w)) (ball_n ns) / 2 ^ n)"
proof (intro conjI impI)
  assume far: "ballDist (ball (game w)) (ball_n ns) > 50"
  from hns_snap[OF far]
  show "x_b (ball (game (handleNetworkState ns w))) = x_b (ball_n ns)"
    and "y_b (ball (game (handleNetworkState ns w))) = y_b (ball_n ns)"
    by simp_all
next
  assume near: "ballDist (ball (game w)) (ball_n ns) \<le> 50"
  from hns_blend_pos[OF near]
  show "x_b (ball (game (handleNetworkState ns w))) = (x_b (ball (game w)) + x_b (ball_n ns)) / 2"
    and "y_b (ball (game (handleNetworkState ns w))) = (y_b (ball (game w)) + y_b (ball_n ns)) / 2"
    by simp_all
  show "ballDist (ball (game (handleNetworkState ns w))) (ball_n ns) =
        ballDist (ball (game w)) (ball_n ns) / 2"
    by (rule hns_blend_dist[OF near])
  show "ballDist (ball (game w)) (ball (game (handleNetworkState ns w))) +
        ballDist (ball (game (handleNetworkState ns w))) (ball_n ns) =
        ballDist (ball (game w)) (ball_n ns)"
    unfolding hns_blend_dist[OF near] hns_blend_travel[OF near] by simp
  show "ballDist (ball (game ((handleNetworkState ns ^^ n) w))) (ball_n ns) =
        ballDist (ball (game w)) (ball_n ns) / 2 ^ n"
    by (rule hns_iter_dist[OF near])
qed

theorem reconcile_snap_or_halve_witness:
  "ballDist (ball (game clientWorld)) (ball_n farSnapshot) > 50 \<and>
   x_b (ball (game (handleNetworkState farSnapshot clientWorld))) = 460 \<and>
   y_b (ball (game (handleNetworkState farSnapshot clientWorld))) = 380 \<and>
   ballDist (ball (game clientWorld)) (ball_n nearSnapshot) \<le> 50 \<and>
   x_b (ball (game (handleNetworkState nearSnapshot clientWorld))) = 415 \<and>
   y_b (ball (game (handleNetworkState nearSnapshot clientWorld))) = 320 \<and>
   ballDist (ball (game (handleNetworkState nearSnapshot clientWorld))) (ball_n nearSnapshot)
     = 25 \<and>
   ballDist (ball (game ((handleNetworkState nearSnapshot ^^ 2) clientWorld)))
     (ball_n nearSnapshot) = 25 / 2"
proof -
  have far: "ballDist (ball (game clientWorld)) (ball_n farSnapshot) = 100"
    by (simp add: ballDist_def clientWorld_def farSnapshot_def startGame_def initialWorld_def
        constants sqrt_10000)
  have near: "ballDist (ball (game clientWorld)) (ball_n nearSnapshot) = 50"
    by (simp add: ballDist_def clientWorld_def nearSnapshot_def startGame_def initialWorld_def
        constants sqrt_2500)
  have pos: "x_b (ball (game clientWorld)) = 400" "y_b (ball (game clientWorld)) = 300"
    by (simp_all add: clientWorld_def startGame_def initialWorld_def constants)
  have sn: "x_b (ball_n farSnapshot) = 460" "y_b (ball_n farSnapshot) = 380"
    "x_b (ball_n nearSnapshot) = 430" "y_b (ball_n nearSnapshot) = 340"
    by (simp_all add: farSnapshot_def nearSnapshot_def)
  show ?thesis
    using reconcile_snap_or_halve[of clientWorld farSnapshot 2]
      reconcile_snap_or_halve[of clientWorld nearSnapshot 2]
    by (simp add: far near pos sn)
qed

section \<open>Scoring at the right edge (claim C4)\<close>

text \<open>
  Claim C4. In a running tick of SINGLE or HOST mode in which the ball's \<open>x\<close> after
  integration exceeds \<open>GAME_WIDTH\<close>: the left score grows by exactly 1 and the right score
  is unchanged; the tick is the score, then the sound, then \<open>checkWinCondition\<close>, then
  \<open>resetBall\<close> (so the match is over after the tick exactly when a score, the new left
  score included, is at the threshold, and the ball is reset either way); and the ball
  after the tick is centred on the centre of the field, with the initial speed, \<open>dx\<close>
  equal to the initial speed (towards the right), and \<open>dy\<close> equal to 0.75 of that speed,
  positive when the random value exceeds 0.5 and negative otherwise.
\<close>

theorem right_edge_scores_left:
  assumes "isRunning (game w)" "\<not> isGameOver (game w)" "mode (game w) \<noteq> CLIENT"
    and "x_b (ball (game w)) + dx (ball (game w)) > GAME_WIDTH"
  shows
    "scoreLeft (game (update lnm rnm r w)) = scoreLeft (game w) + 1 \<and>
     scoreRight (game (update lnm rnm r w)) = scoreRight (game w) \<and>
     update lnm rnm r w =
       afterTick (resetBall Left r (checkWinCondition lnm rnm
         (sendSound SCORE_PLAYER (scoredLeft (beforePaddles w))))) \<and>
     isGameOver (game (update lnm rnm r w)) =
       (scoreLeft (game w) + 1 \<ge> WINNING_SCORE \<or> scoreRight (game w) \<ge> WINNING_SCORE) \<and>
     ball (game (update lnm rnm r w)) =
       \<lparr>x_b = GAME_WIDTH / 2 - BALL_SIZE / 2, y_b = GAME_HEIGHT / 2 - BALL_SIZE / 2,
        dx = INITIAL_BALL_SPEED,
        dy = (if r > 0.5 then 1 else - 1) * (INITIAL_BALL_SPEED * 0.75),
        speed = INITIAL_BALL_SPEED\<rparr> \<and>
     x_b (ball (game (update lnm rnm r w))) + BALL_SIZE / 2 = GAME_WIDTH / 2 \<and>
     y_b (ball (game (update lnm rnm r w))) + BALL_SIZE / 2 = GAME_HEIGHT / 2 \<and>
     dx (ball (game (update lnm rnm r w))) > 0 \<and>
     \<bar>dy (ball (game (update lnm rnm r w)))\<bar> = 0.75 * speed (ball (game (update lnm rnm r w)))"
proof -
  note u = update_left_point[OF assms, of lnm rnm r]
  have sp: "samePhys w (beforePaddles w)" by (rule samePhys_beforePaddles)
  have b: "ball (game (update lnm rnm r w)) =
       \<lparr>x_b = GAME_WIDTH / 2 - BALL_SIZE / 2, y_b = GAME_HEIGHT / 2 - BALL_SIZE / 2,
        dx = INITIAL_BALL_SPEED,
        dy = (if r > 0.5 then 1 else - 1) * (INITIAL_BALL_SPEED * 0.75),
        speed = INITIAL_BALL_SPEED\<rparr>"
    unfolding u by (simp add: afterTick_simps resetBall_fields)
  have s: "scoreLeft (game (update lnm rnm r w)) = scoreLeft (game w) + 1"
    "scoreRight (game (update lnm rnm r w)) = scoreRight (game w)"
    "isGameOver (game (update lnm rnm r w)) =
       (scoreLeft (game w) + 1 \<ge> WINNING_SCORE \<or> scoreRight (game w) \<ge> WINNING_SCORE)"
    unfolding u using sp assms(2)
    by (simp_all add: afterTick_simps resetBall_fields checkWinCondition_fields sendSound_simps
        scoredLeft_simps samePhys_def)
  have d: "x_b (ball (game (update lnm rnm r w))) + BALL_SIZE / 2 = GAME_WIDTH / 2"
    "y_b (ball (game (update lnm rnm r w))) + BALL_SIZE / 2 = GAME_HEIGHT / 2"
    "dx (ball (game (update lnm rnm r w))) > 0"
    "\<bar>dy (ball (game (update lnm rnm r w)))\<bar> = 0.75 * speed (ball (game (update lnm rnm r w)))"
    unfolding b by (simp_all add: constants)
  show ?thesis
    by (intro conjI) (rule s u b d)+
qed

theorem right_edge_scores_left_witness:
  "isRunning (game rightEdgeWorld) \<and> \<not> isGameOver (game rightEdgeWorld) \<and>
   mode (game rightEdgeWorld) \<noteq> CLIENT \<and>
   x_b (ball (game rightEdgeWorld)) + dx (ball (game rightEdgeWorld)) > GAME_WIDTH \<and>
   scoreLeft (game (update ''ANN'' ''CPU'' 0.7 rightEdgeWorld)) = 1 \<and>
   scoreRight (game (update ''ANN'' ''CPU'' 0.7 rightEdgeWorld)) = 0 \<and>
   \<not> isGameOver (game (update ''ANN'' ''CPU'' 0.7 rightEdgeWorld)) \<and>
   ball (game (update ''ANN'' ''CPU'' 0.7 rightEdgeWorld)) =
     \<lparr>x_b = 394, y_b = 294, dx = 7, dy = 5.25, speed = 7\<rparr>"
proof -
  have h: "isRunning (game rightEdgeWorld)" "\<not> isGameOver (game rightEdgeWorld)"
    "mode (game rightEdgeWorld) \<noteq> CLIENT"
    "x_b (ball (game rightEdgeWorld)) + dx (ball (game rightEdgeWorld)) > GAME_WIDTH"
    by (simp_all add: rightEdgeWorld_game constants)
  have s: "scoreLeft (game rightEdgeWorld) = 0" "scoreRight (game rightEdgeWorld) = 0"
    by (simp_all add: rightEdgeWorld_game)
  note t = right_edge_scores_left [OF h, of "''ANN''" "''CPU''" "0.7"]
  have "scoreLeft (game (update ''ANN'' ''CPU'' 0.7 rightEdgeWorld)) = 1"
    using t[THEN conjunct1] by (simp add: s)
  moreover have "scoreRight (game (update ''ANN'' ''CPU'' 0.7 rightEdgeWorld)) = 0"
    using t[THEN conjunct2, THEN conjunct1] by (simp add: s)
  moreover have "\<not> isGameOver (game (update ''ANN'' ''CPU'' 0.7 rightEdgeWorld))"
    using t[THEN conjunct2, THEN conjunct2, THEN conjunct2, THEN conjunct1]
    by (simp add: s constants)
  moreover have "ball (game (update ''ANN'' ''CPU'' 0.7 rightEdgeWorld)) =
     \<lparr>x_b = 394, y_b = 294, dx = 7, dy = 5.25, speed = 7\<rparr>"
    using t[THEN conjunct2, THEN conjunct2, THEN conjunct2, THEN conjunct2, THEN conjunct1]
    by (simp add: constants)
  ultimately show ?thesis
    using h by simp
qed

section \<open>The win threshold (claim C5)\<close>

text \<open>
  The transition at the threshold, for any two names passed to \<open>update\<close>. On the
  authoritative side, in a running match with both scores below the threshold of 11: when
  a tick brings the left (right) score to the threshold, the state after the tick has
  \<open>isGameOver\<close> set and \<open>isRunning\<close> cleared, the winner is the first (second) of the two
  names, the game status is \<open>GAME_OVER\<close>, exactly one game-over sound was played, and any
  number of later ticks leave the state as it is; when neither score reaches the
  threshold the match keeps running and no game-over sound is played. Along any sequence
  of ticks, pointer inputs and INPUT messages the number of game-over sounds played since
  the start is 1 if the match is over and 0 otherwise, the match is over exactly when a
  score is at the threshold, and \<open>isRunning\<close> is the negation of \<open>isGameOver\<close>.
\<close>

lemma win_transition_names:
  assumes "isRunning (game w)" "\<not> isGameOver (game w)" "mode (game w) \<noteq> CLIENT"
    and "scoreLeft (game w) < WINNING_SCORE" "scoreRight (game w) < WINNING_SCORE"
  shows
   "(scoreLeft (game (update lnm rnm r w)) \<ge> WINNING_SCORE \<longrightarrow>
       isGameOver (game (update lnm rnm r w)) \<and> \<not> isRunning (game (update lnm rnm r w)) \<and>
       winner (game (update lnm rnm r w)) = Some lnm \<and>
       gameStatus (ui (update lnm rnm r w)) = GAME_OVER \<and>
       winnerName (ui (update lnm rnm r w)) = Some lnm \<and>
       count_list (played (update lnm rnm r w)) GAME_OVER_SOUND =
         count_list (played w) GAME_OVER_SOUND + 1 \<and>
       fold (update lnm rnm) rs (update lnm rnm r w) = update lnm rnm r w) \<and>
    (scoreRight (game (update lnm rnm r w)) \<ge> WINNING_SCORE \<longrightarrow>
       isGameOver (game (update lnm rnm r w)) \<and> \<not> isRunning (game (update lnm rnm r w)) \<and>
       winner (game (update lnm rnm r w)) = Some rnm \<and>
       gameStatus (ui (update lnm rnm r w)) = GAME_OVER \<and>
       winnerName (ui (update lnm rnm r w)) = Some rnm \<and>
       count_list (played (update lnm rnm r w)) GAME_OVER_SOUND =
         count_list (played w) GAME_OVER_SOUND + 1 \<and>
       fold (update lnm rnm) rs (update lnm rnm r w) = update lnm rnm r w) \<and>
    (scoreLeft (game (update lnm rnm r w)) < WINNING_SCORE \<and>
     scoreRight (game (update lnm rnm r w)) < WINNING_SCORE \<longrightarrow>
       \<not> isGameOver (game (update lnm rnm r w)) \<and> isRunning (game (update lnm rnm r w)) \<and>
       winner (game (update lnm rnm r w)) = winner (game w) \<and>
       count_list (played (update lnm rnm r w)) GAME_OVER_SOUND =
         count_list (played w) GAME_OVER_SOUND) \<and>
    (list_all matchEvent es \<and> run lnm rnm es w = Some w2 \<longrightarrow>
       count_list (played w2) GAME_OVER_SOUND =
         count_list (played w) GAME_OVER_SOUND + (if isGameOver (game w2) then 1 else 0) \<and>
       isGameOver (game w2) =
         (scoreLeft (game w2) \<ge> WINNING_SCORE \<or> scoreRight (game w2) \<ge> WINNING_SCORE) \<and>
       isRunning (game w2) = (\<not> isGameOver (game w2)))"
proof -
  note a = assms(1-3)
  have inv: "matchInv (count_list (played w) GAME_OVER_SOUND) lnm rnm w"
    using assms by (simp add: matchInv_def)
  have tick: "matchInv (count_list (played w) GAME_OVER_SOUND) lnm rnm (update lnm rnm r w)"
    by (rule update_matchInv[OF inv])
  have ex: "\<not> (scoreLeft (game (update lnm rnm r w)) \<ge> WINNING_SCORE \<and>
      scoreRight (game (update lnm rnm r w)) \<ge> WINNING_SCORE)"
    using update_scores[OF a, of lnm rnm r] assms(4,5) points_exclusive[of w] by auto
  have ui: "isGameOver (game (update lnm rnm r w)) \<longrightarrow>
     gameStatus (ui (update lnm rnm r w)) = GAME_OVER \<and>
     winnerName (ui (update lnm rnm r w)) = winner (game (update lnm rnm r w))"
  proof (cases "scoresLeftPoint w \<or> scoresRightPoint w")
    case True
    show ?thesis using update_point[OF a True, of lnm rnm r] by auto
  next
    case False
    then show ?thesis using update_quiet[OF a, of lnm rnm r] by simp
  qed
  have quiet: "\<not> isGameOver (game (update lnm rnm r w)) \<longrightarrow>
     winner (game (update lnm rnm r w)) = winner (game w)"
  proof (cases "scoresLeftPoint w \<or> scoresRightPoint w")
    case True
    show ?thesis using update_point[OF a True, of lnm rnm r] by auto
  next
    case False
    then show ?thesis using update_quiet[OF a, of lnm rnm r] by simp
  qed
  have stop: "isGameOver (game (update lnm rnm r w)) \<longrightarrow>
     fold (update lnm rnm) rs (update lnm rnm r w) = update lnm rnm r w"
    by (simp add: fold_update_stopped)
  have runs: "list_all matchEvent es \<and> run lnm rnm es w = Some w2 \<longrightarrow>
     matchInv (count_list (played w) GAME_OVER_SOUND) lnm rnm w2"
    using run_matchInv[OF inv] by blast
  show ?thesis
    using tick ex ui quiet stop runs
    by (auto simp: matchInv_def split: if_splits)
qed

lemma loop_stopped:
  "isGameOver (game w) \<or> \<not> isRunning (game w) \<Longrightarrow> fold (loop nick) rs w = w"
  by (induction rs) (simp_all add: loop_def update_stopped)

lemma scoring_remoteNickname:
  "remoteNickname (ui (scoring l n r w)) = remoteNickname (ui w)"
  by (simp add: scoring_def resetBall_def checkWinCondition_def endGame_def sendSound_simps
      playSound_def send_def Let_def)

lemma update_remoteNickname:
  "remoteNickname (ui (update l n r w)) = remoteNickname (ui w)"
proof (cases "isRunning (game w) \<and> \<not> isGameOver (game w) \<and> mode (game w) \<noteq> CLIENT")
  case True
  then show ?thesis
    using samePhys_beforeScoring[of w]
    by (simp add: update_authoritative Let_def sendHostUpdate_simps scoring_remoteNickname
        samePhys_def)
next
  case False
  then show ?thesis
    by (auto simp: update_def sendClientInput_def integrate_def send_def Let_def)
qed

lemma scoring_sent_right:
  assumes "x_b (ball (game w)) < 0" "mode (game w) = HOST" "conn w \<noteq> None"
    and "scoreRight (game w) + 1 \<ge> WINNING_SCORE" "scoreLeft (game w) < WINNING_SCORE"
  shows "OVER n \<in> set (sent (scoring l n r w))"
  using assms
  by (cases "conn w")
    (auto simp: scoring_def resetBall_def checkWinCondition_def endGame_def sendSound_def
      playSound_def send_def Let_def)

lemma scoring_sent_left:
  assumes "x_b (ball (game w)) > GAME_WIDTH" "mode (game w) = HOST" "conn w \<noteq> None"
    and "scoreLeft (game w) + 1 \<ge> WINNING_SCORE"
  shows "OVER l \<in> set (sent (scoring l n r w))"
  using assms
  by (cases "conn w")
    (auto simp: scoring_def resetBall_def checkWinCondition_def endGame_def sendSound_def
      playSound_def send_def Let_def constants)

lemma sendHostUpdate_sent: "set (sent w) \<subseteq> set (sent (sendHostUpdate w))"
  by (auto simp: sendHostUpdate_def send_def)

lemma update_sends_over:
  assumes a: "isRunning (game w)" "\<not> isGameOver (game w)" "mode (game w) = HOST"
    and c: "conn w \<noteq> None"
    and s: "scoreLeft (game w) < WINNING_SCORE" "scoreRight (game w) < WINNING_SCORE"
  shows "scoreRight (game (update l n r w)) \<ge> WINNING_SCORE \<longrightarrow>
           OVER n \<in> set (sent (update l n r w))"
    and "scoreLeft (game (update l n r w)) \<ge> WINNING_SCORE \<longrightarrow>
           OVER l \<in> set (sent (update l n r w))"
proof -
  have a': "isRunning (game w)" "\<not> isGameOver (game w)" "mode (game w) \<noteq> CLIENT"
    using a by simp_all
  have sp: "samePhys w (beforeScoring w)" by (rule samePhys_beforeScoring)
  have u: "update l n r w = afterTick (scoring l n r (beforeScoring w))"
    using a' by (simp add: update_authoritative Let_def afterTick_def)
  have sub: "set (sent (scoring l n r (beforeScoring w))) \<subseteq> set (sent (update l n r w))"
    unfolding u afterTick_def using sendHostUpdate_sent by auto
  show "scoreRight (game (update l n r w)) \<ge> WINNING_SCORE \<longrightarrow>
           OVER n \<in> set (sent (update l n r w))"
  proof
    assume "scoreRight (game (update l n r w)) \<ge> WINNING_SCORE"
    then have p: "scoresRightPoint w" and q: "scoreRight (game w) + 1 \<ge> WINNING_SCORE"
      using update_scores(2)[OF a', of l n r] s(2) by (auto split: if_splits)
    have "OVER n \<in> set (sent (scoring l n r (beforeScoring w)))"
      using p q sp a(3) c s(1)
      by (intro scoring_sent_right)
        (simp_all add: beforeScoring_x scoresRightPoint_def samePhys_def)
    then show "OVER n \<in> set (sent (update l n r w))" using sub by auto
  qed
  show "scoreLeft (game (update l n r w)) \<ge> WINNING_SCORE \<longrightarrow>
           OVER l \<in> set (sent (update l n r w))"
  proof
    assume "scoreLeft (game (update l n r w)) \<ge> WINNING_SCORE"
    then have p: "scoresLeftPoint w" and q: "scoreLeft (game w) + 1 \<ge> WINNING_SCORE"
      using update_scores(1)[OF a', of l n r] s(1) by (auto split: if_splits)
    have "OVER l \<in> set (sent (scoring l n r (beforeScoring w)))"
      using p q sp a(3) c
      by (intro scoring_sent_left)
        (simp_all add: beforeScoring_x scoresLeftPoint_def samePhys_def)
    then show "OVER l \<in> set (sent (update l n r w))" using sub by auto
  qed
qed

lemma first_render_remote: "remoteNickname (ui initialWorld) = ''CPU''"
  by (simp add: initialWorld_def)

lemma bobMatchPoint_eq:
  "bobMatchPoint =
     \<lparr>game = \<lparr>ball = \<lparr>x_b = 5, y_b = 300, dx = - 7, dy = 7, speed = 7\<rparr>,
               paddleLeftY = 260, paddleRightY = 260, scoreLeft = 0, scoreRight = 10,
               isRunning = True, isGameOver = False, winner = None, mode = HOST\<rparr>,
      ui = \<lparr>scoreL = 0, scoreR = 0, gameStatus = PLAYING, winnerName = None,
             remoteNickname = ''BOB''\<rparr>,
      conn = Some True, sent = [SOUND GAME_START], played = [GAME_START]\<rparr>"
  by (simp add: bobMatchPoint_def bobHostWorld_def hostOnData_def model_defs)

text \<open>
  Claim C5 says that when a score reaches the threshold of 11 on the authoritative side
  the match enters \<open>GAME_OVER\<close> exactly once, \<open>isRunning\<close> becomes false and the recorded
  winner is the identity of the side that reached 11. For the frame that the component
  runs (\<open>loop\<close>), in a running match with both scores below the threshold, the transition
  is as claimed: the flags, the game status, exactly one game-over sound, and no change
  by any later frame. The recorded winner is not: when the right score reaches the
  threshold, the winner stored in the match state and in \<open>uiState\<close>, and sent in the OVER
  message of a HOST, is \<open>''CPU''\<close>, the remote nickname of the initial \<open>uiState\<close>, whatever
  remote nickname \<open>uiState\<close> holds for the right side (and the frame leaves that
  nickname as it is); when the left score reaches the threshold the winner is the
  nickname at mount.
\<close>

theorem loop_win_records_first_render_names:
  assumes "isRunning (game w)" "\<not> isGameOver (game w)" "mode (game w) \<noteq> CLIENT"
    and "scoreLeft (game w) < WINNING_SCORE" "scoreRight (game w) < WINNING_SCORE"
  shows
   "(scoreRight (game (loop nick r w)) \<ge> WINNING_SCORE \<longrightarrow>
       isGameOver (game (loop nick r w)) \<and> \<not> isRunning (game (loop nick r w)) \<and>
       gameStatus (ui (loop nick r w)) = GAME_OVER \<and>
       count_list (played (loop nick r w)) GAME_OVER_SOUND =
         count_list (played w) GAME_OVER_SOUND + 1 \<and>
       fold (loop nick) rs (loop nick r w) = loop nick r w \<and>
       winner (game (loop nick r w)) = Some ''CPU'' \<and>
       winnerName (ui (loop nick r w)) = Some ''CPU'' \<and>
       (mode (game w) = HOST \<and> conn w \<noteq> None \<longrightarrow> OVER ''CPU'' \<in> set (sent (loop nick r w))) \<and>
       remoteNickname (ui (loop nick r w)) = remoteNickname (ui w)) \<and>
    (scoreLeft (game (loop nick r w)) \<ge> WINNING_SCORE \<longrightarrow>
       isGameOver (game (loop nick r w)) \<and> \<not> isRunning (game (loop nick r w)) \<and>
       gameStatus (ui (loop nick r w)) = GAME_OVER \<and>
       count_list (played (loop nick r w)) GAME_OVER_SOUND =
         count_list (played w) GAME_OVER_SOUND + 1 \<and>
       fold (loop nick) rs (loop nick r w) = loop nick r w \<and>
       winner (game (loop nick r w)) = Some nick \<and>
       winnerName (ui (loop nick r w)) = Some nick) \<and>
    (scoreLeft (game (loop nick r w)) < WINNING_SCORE \<and>
     scoreRight (game (loop nick r w)) < WINNING_SCORE \<longrightarrow>
       \<not> isGameOver (game (loop nick r w)) \<and> isRunning (game (loop nick r w)) \<and>
       winner (game (loop nick r w)) = winner (game w) \<and>
       count_list (played (loop nick r w)) GAME_OVER_SOUND =
         count_list (played w) GAME_OVER_SOUND)"
proof -
  note t = win_transition_names[OF assms, of nick "''CPU''" r "[]" "[]" w]
  have st: "isGameOver (game (loop nick r w)) \<longrightarrow>
      fold (loop nick) rs (loop nick r w) = loop nick r w"
    by (simp add: loop_stopped)
  have ov: "mode (game w) = HOST \<and> conn w \<noteq> None \<longrightarrow>
      (scoreRight (game (loop nick r w)) \<ge> WINNING_SCORE \<longrightarrow>
         OVER ''CPU'' \<in> set (sent (loop nick r w)))"
    using update_sends_over(1)[OF assms(1,2) _ _ assms(4,5), of nick "''CPU''" r]
    by (simp add: loop_def first_render_remote)
  have rn: "remoteNickname (ui (loop nick r w)) = remoteNickname (ui w)"
    by (simp add: loop_def update_remoteNickname)
  show ?thesis
    using t st ov rn by (simp add: loop_def first_render_remote)
qed

theorem loop_win_records_first_render_names_witness:
  "isRunning (game bobMatchPoint) \<and> \<not> isGameOver (game bobMatchPoint) \<and>
   mode (game bobMatchPoint) = HOST \<and> conn bobMatchPoint \<noteq> None \<and>
   scoreLeft (game bobMatchPoint) < WINNING_SCORE \<and>
   scoreRight (game bobMatchPoint) < WINNING_SCORE \<and>
   remoteNickname (ui bobMatchPoint) = ''BOB'' \<and>
   scoreRight (game (loop ''ANN'' 0 bobMatchPoint)) \<ge> WINNING_SCORE \<and>
   isGameOver (game (loop ''ANN'' 0 bobMatchPoint)) \<and>
   \<not> isRunning (game (loop ''ANN'' 0 bobMatchPoint)) \<and>
   remoteNickname (ui (loop ''ANN'' 0 bobMatchPoint)) = ''BOB'' \<and>
   winner (game (loop ''ANN'' 0 bobMatchPoint)) = Some ''CPU'' \<and>
   winner (game (loop ''ANN'' 0 bobMatchPoint)) \<noteq>
     Some (remoteNickname (ui (loop ''ANN'' 0 bobMatchPoint))) \<and>
   winnerName (ui (loop ''ANN'' 0 bobMatchPoint)) = Some ''CPU'' \<and>
   OVER ''CPU'' \<in> set (sent (loop ''ANN'' 0 bobMatchPoint)) \<and>
   fold (loop ''ANN'') [0, 1] (loop ''ANN'' 0 bobMatchPoint) = loop ''ANN'' 0 bobMatchPoint \<and>
   scoreLeft (game (loop ''ANN'' 0 matchPointWorld)) \<ge> WINNING_SCORE \<and>
   isGameOver (game (loop ''ANN'' 0 matchPointWorld)) \<and>
   winner (game (loop ''ANN'' 0 matchPointWorld)) = Some ''ANN'' \<and>
   scoreLeft (game (loop ''ANN'' 0 singleWorld)) < WINNING_SCORE \<and>
   scoreRight (game (loop ''ANN'' 0 singleWorld)) < WINNING_SCORE \<and>
   isRunning (game (loop ''ANN'' 0 singleWorld)) \<and>
   \<not> isGameOver (game (loop ''ANN'' 0 singleWorld))"
proof -
  have h1: "isRunning (game bobMatchPoint)" "\<not> isGameOver (game bobMatchPoint)"
    "mode (game bobMatchPoint) \<noteq> CLIENT"
    "scoreLeft (game bobMatchPoint) < WINNING_SCORE"
    "scoreRight (game bobMatchPoint) < WINNING_SCORE"
    by (simp_all add: bobMatchPoint_eq constants)
  have h2: "isRunning (game matchPointWorld)" "\<not> isGameOver (game matchPointWorld)"
    "mode (game matchPointWorld) \<noteq> CLIENT"
    "scoreLeft (game matchPointWorld) < WINNING_SCORE"
    "scoreRight (game matchPointWorld) < WINNING_SCORE"
    by (simp_all add: matchPointWorld_eq constants)
  have h3: "isRunning (game singleWorld)" "\<not> isGameOver (game singleWorld)"
    "mode (game singleWorld) \<noteq> CLIENT"
    "scoreLeft (game singleWorld) < WINNING_SCORE"
    "scoreRight (game singleWorld) < WINNING_SCORE"
    by (simp_all add: singleWorld_eq constants)
  have b: "mode (game bobMatchPoint) = HOST" "conn bobMatchPoint \<noteq> None"
    "remoteNickname (ui bobMatchPoint) = ''BOB''"
    by (simp_all add: bobMatchPoint_eq)
  have s1: "scoreRight (game (loop ''ANN'' 0 bobMatchPoint)) = 11"
    unfolding loop_def update_scores[OF h1(1-3)]
    by (simp add: scoresRightPoint_def bobMatchPoint_eq constants)
  have s2: "scoreLeft (game (loop ''ANN'' 0 matchPointWorld)) = 11"
    unfolding loop_def update_scores[OF h2(1-3)]
    by (simp add: scoresLeftPoint_def matchPointWorld_eq constants)
  have s3: "scoreLeft (game (loop ''ANN'' 0 singleWorld)) = 0"
    "scoreRight (game (loop ''ANN'' 0 singleWorld)) = 0"
    unfolding loop_def update_scores[OF h3(1-3)]
    by (simp_all add: scoresLeftPoint_def scoresRightPoint_def singleWorld_eq constants)
  show ?thesis
    using h1 b
      loop_win_records_first_render_names [OF h1, where nick = "''ANN''" and r = 0 and rs = "[0, 1]"]
      loop_win_records_first_render_names [OF h2, where nick = "''ANN''" and r = 0 and rs = "[]"]
      loop_win_records_first_render_names [OF h3, where nick = "''ANN''" and r = 0 and rs = "[]"]
    by (simp add: s1 s2 s3 constants del: fold_simps)
qed

section \<open>The AI paddle (claim C6)\<close>

text \<open>
  Claim C6 as stated does not hold: the AI compares the \<open>y\<close> coordinate of the ball (its
  top edge), not the ball's vertical centre, with the centre of its paddle. In the
  second tick of a single-player match the ball's centre (313) is 13 units below the
  paddle's centre (300), beyond the dead zone of 10, and the paddle holds at 260.
\<close>

theorem ai_holds_beyond_centre_dead_zone:
  "mode (game secondTickWorld) = SINGLE \<and> isRunning (game secondTickWorld) \<and>
   \<not> isGameOver (game secondTickWorld) \<and>
   ballCenterY secondTickWorld = 313 \<and> paddleRightCenterY secondTickWorld = 300 \<and>
   ballCenterY secondTickWorld > paddleRightCenterY secondTickWorld + 10 \<and>
   paddleRightY (game secondTickWorld) = 260 \<and>
   paddleRightY (game (update ''ANN'' ''CPU'' 0 secondTickWorld)) = 260 \<and>
   paddleRightY (game (update ''ANN'' ''CPU'' 0 secondTickWorld)) \<noteq>
     max 0 (min (GAME_HEIGHT - PADDLE_HEIGHT) (paddleRightY (game secondTickWorld) + COMPUTER_SPEED))"
  by (simp add: update_paddleRightY aiControl_paddleRightY secondTickWorld_game
      ballCenterY_def paddleRightCenterY_def constants)

text \<open>
  Claim C6, amended. In a running tick of SINGLE mode the right paddle moves down by
  \<open>COMPUTER_SPEED\<close> (6.5) when the ball's \<open>y\<close> coordinate (its top edge) is more than 10
  units below the centre of the AI paddle, up by 6.5 when it is more than 10 units above,
  and holds otherwise; the result is clamped to \<open>[0, GAME_HEIGHT - PADDLE_HEIGHT]\<close>. In
  the other modes a tick leaves the right paddle offset unchanged.
\<close>

theorem ai_paddle_step:
  assumes "isRunning (game w)" "\<not> isGameOver (game w)"
  shows "paddleRightY (game (update lnm rnm r w)) =
     (if mode (game w) = SINGLE then
        max 0 (min (GAME_HEIGHT - PADDLE_HEIGHT)
          (if y_b (ball (game w)) > paddleRightCenterY w + 10
           then paddleRightY (game w) + COMPUTER_SPEED
           else if y_b (ball (game w)) < paddleRightCenterY w - 10
           then paddleRightY (game w) - COMPUTER_SPEED
           else paddleRightY (game w)))
      else paddleRightY (game w))"
  using assms
  by (auto simp: update_paddleRightY aiControl_paddleRightY paddleRightCenterY_def constants)

theorem ai_paddle_step_witness:
  "isRunning (game lowBallWorld) \<and> \<not> isGameOver (game lowBallWorld) \<and>
   mode (game lowBallWorld) = SINGLE \<and>
   y_b (ball (game lowBallWorld)) > paddleRightCenterY lowBallWorld + 10 \<and>
   paddleRightY (game (update ''ANN'' ''CPU'' 0 lowBallWorld)) = 266.5 \<and>
   isRunning (game highBallWorld) \<and> \<not> isGameOver (game highBallWorld) \<and>
   mode (game highBallWorld) = SINGLE \<and>
   y_b (ball (game highBallWorld)) < paddleRightCenterY highBallWorld - 10 \<and>
   paddleRightY (game (update ''ANN'' ''CPU'' 0 highBallWorld)) = 253.5 \<and>
   isRunning (game secondTickWorld) \<and> \<not> isGameOver (game secondTickWorld) \<and>
   mode (game secondTickWorld) = SINGLE \<and>
   paddleRightY (game (update ''ANN'' ''CPU'' 0 secondTickWorld)) = 260 \<and>
   isRunning (game hostWorld) \<and> \<not> isGameOver (game hostWorld) \<and>
   mode (game hostWorld) \<noteq> SINGLE \<and>
   paddleRightY (game (update ''ANN'' ''BOB'' 0 hostWorld)) = 260"
proof -
  have h1: "isRunning (game lowBallWorld)" "\<not> isGameOver (game lowBallWorld)"
    and h2: "isRunning (game highBallWorld)" "\<not> isGameOver (game highBallWorld)"
    and h3: "isRunning (game secondTickWorld)" "\<not> isGameOver (game secondTickWorld)"
    and h4: "isRunning (game hostWorld)" "\<not> isGameOver (game hostWorld)"
    by (simp_all add: lowBallWorld_game highBallWorld_game secondTickWorld_game hostWorld_eq)
  show ?thesis
    using ai_paddle_step [OF h1, of "''ANN''" "''CPU''" 0] ai_paddle_step [OF h2, of "''ANN''" "''CPU''" 0]
      ai_paddle_step [OF h3, of "''ANN''" "''CPU''" 0] ai_paddle_step [OF h4, of "''ANN''" "''BOB''" 0]
    by (simp add: lowBallWorld_game highBallWorld_game secondTickWorld_game hostWorld_eq
        paddleRightCenterY_def constants)
qed

section \<open>The CLIENT role (claims C7 and C8)\<close>

text \<open>
  Claim C7. A tick in CLIENT mode moves the ball by its current velocity when the match
  is running (and not at all otherwise) and changes nothing else of the match state:
  velocity, speed, both scores, both paddle offsets, the running and game-over flags,
  the winner and the mode are as before, and so are the user interface state and the
  sounds played. No wall, paddle or scoring logic runs.
\<close>

theorem client_tick_extrapolates_only:
  "mode (game w) = CLIENT \<Longrightarrow>
   x_b (ball (game (update lnm rnm r w))) =
     (if isRunning (game w) \<and> \<not> isGameOver (game w)
      then x_b (ball (game w)) + dx (ball (game w)) else x_b (ball (game w))) \<and>
   y_b (ball (game (update lnm rnm r w))) =
     (if isRunning (game w) \<and> \<not> isGameOver (game w)
      then y_b (ball (game w)) + dy (ball (game w)) else y_b (ball (game w))) \<and>
   dx (ball (game (update lnm rnm r w))) = dx (ball (game w)) \<and>
   dy (ball (game (update lnm rnm r w))) = dy (ball (game w)) \<and>
   speed (ball (game (update lnm rnm r w))) = speed (ball (game w)) \<and>
   scoreLeft (game (update lnm rnm r w)) = scoreLeft (game w) \<and>
   scoreRight (game (update lnm rnm r w)) = scoreRight (game w) \<and>
   paddleLeftY (game (update lnm rnm r w)) = paddleLeftY (game w) \<and>
   paddleRightY (game (update lnm rnm r w)) = paddleRightY (game w) \<and>
   isRunning (game (update lnm rnm r w)) = isRunning (game w) \<and>
   isGameOver (game (update lnm rnm r w)) = isGameOver (game w) \<and>
   winner (game (update lnm rnm r w)) = winner (game w) \<and>
   mode (game (update lnm rnm r w)) = mode (game w) \<and>
   ui (update lnm rnm r w) = ui w \<and>
   played (update lnm rnm r w) = played w"
  by (simp add: update_def sendClientInput_def integrate_def send_def Let_def)

theorem client_tick_extrapolates_only_witness:
  "mode (game clientWorld) = CLIENT \<and>
   x_b (ball (game (update ''BOB'' ''ANN'' 0 clientWorld))) = 407 \<and>
   y_b (ball (game (update ''BOB'' ''ANN'' 0 clientWorld))) = 307 \<and>
   dx (ball (game (update ''BOB'' ''ANN'' 0 clientWorld))) = 7 \<and>
   scoreLeft (game (update ''BOB'' ''ANN'' 0 clientWorld)) = 0 \<and>
   isRunning (game (update ''BOB'' ''ANN'' 0 clientWorld))"
proof -
  have h: "mode (game clientWorld) = CLIENT"
    by (simp add: clientWorld_def startGame_def)
  have st: "isRunning (game clientWorld)" "\<not> isGameOver (game clientWorld)"
    "x_b (ball (game clientWorld)) = 400" "y_b (ball (game clientWorld)) = 300"
    "dx (ball (game clientWorld)) = 7" "dy (ball (game clientWorld)) = 7"
    "scoreLeft (game clientWorld) = 0"
    by (simp_all add: clientWorld_def startGame_def constants)
  show ?thesis
    using h client_tick_extrapolates_only [OF h, of "''BOB''" "''ANN''" 0] by (simp add: st)
qed

text \<open>
  Claim C8. Reconciling a snapshot on the CLIENT stores the snapshot's two scores and
  its left paddle offset as they are, always stores the snapshot's ball velocity
  (whatever the distance between the two balls), and leaves the right paddle offset,
  \<open>isRunning\<close>, \<open>isGameOver\<close>, \<open>winner\<close> and \<open>mode\<close> as they were.
\<close>

theorem reconcile_overwrites:
  "scoreLeft (game (handleNetworkState ns w)) = sLeft ns \<and>
   scoreRight (game (handleNetworkState ns w)) = sRight ns \<and>
   paddleLeftY (game (handleNetworkState ns w)) = pLeft ns \<and>
   dx (ball (game (handleNetworkState ns w))) = dx (ball_n ns) \<and>
   dy (ball (game (handleNetworkState ns w))) = dy (ball_n ns) \<and>
   paddleRightY (game (handleNetworkState ns w)) = paddleRightY (game w) \<and>
   isRunning (game (handleNetworkState ns w)) = isRunning (game w) \<and>
   isGameOver (game (handleNetworkState ns w)) = isGameOver (game w) \<and>
   winner (game (handleNetworkState ns w)) = winner (game w) \<and>
   mode (game (handleNetworkState ns w)) = mode (game w)"
  by (simp add: handleNetworkState_def Let_def)

theorem reconcile_overwrites_witness:
  "scoreLeft (game (handleNetworkState farSnapshot clientWorld)) = 1 \<and>
   paddleLeftY (game (handleNetworkState farSnapshot clientWorld)) = 200 \<and>
   dx (ball (game (handleNetworkState farSnapshot clientWorld))) = - 7 \<and>
   paddleRightY (game (handleNetworkState farSnapshot clientWorld)) = 260 \<and>
   isRunning (game (handleNetworkState farSnapshot clientWorld)) \<and>
   mode (game (handleNetworkState farSnapshot clientWorld)) = CLIENT"
proof -
  have st: "paddleRightY (game clientWorld) = 260" "isRunning (game clientWorld)"
    "mode (game clientWorld) = CLIENT"
    by (simp_all add: clientWorld_def startGame_def constants)
  show ?thesis
    using reconcile_overwrites [of farSnapshot clientWorld] by (simp add: st farSnapshot_def)
qed

section \<open>Paddle hits (claim C9)\<close>

text \<open>
  Claim C9. In a running tick of SINGLE or HOST mode in which the ball, after
  integration and the wall test, overlaps the left (right) paddle, the vertical velocity
  after the tick is the offset of the ball's vertical centre from the paddle's vertical
  centre, divided by half the paddle height and multiplied by 10. So it is 0 when the
  two centres are aligned. If the ball was moving towards the paddle (and its speed is
  not negative, as in every state of a match), the horizontal velocity after the tick
  points away from the paddle.
\<close>

theorem paddle_hit_deflection:
  assumes "isRunning (game w)" "\<not> isGameOver (game w)" "mode (game w) \<noteq> CLIENT"
  shows
   "(overlaps (ballRectOf (beforePaddles w)) (paddleLeftRect (beforePaddles w)) \<longrightarrow>
       dy (ball (game (update lnm rnm r w))) =
         ((ballCenterY (beforePaddles w) - paddleLeftCenterY (beforePaddles w))
            / (PADDLE_HEIGHT / 2)) * 10 \<and>
       (ballCenterY (beforePaddles w) = paddleLeftCenterY (beforePaddles w) \<longrightarrow>
          dy (ball (game (update lnm rnm r w))) = 0) \<and>
       (dx (ball (game w)) < 0 \<and> 0 \<le> speed (ball (game w)) \<longrightarrow>
          dx (ball (game (update lnm rnm r w))) > 0)) \<and>
    (overlaps (ballRectOf (beforePaddles w)) (paddleRightRect (beforePaddles w)) \<longrightarrow>
       dy (ball (game (update lnm rnm r w))) =
         ((ballCenterY (beforePaddles w) - paddleRightCenterY (beforePaddles w))
            / (PADDLE_HEIGHT / 2)) * 10 \<and>
       (ballCenterY (beforePaddles w) = paddleRightCenterY (beforePaddles w) \<longrightarrow>
          dy (ball (game (update lnm rnm r w))) = 0) \<and>
       (dx (ball (game w)) > 0 \<and> 0 \<le> speed (ball (game w)) \<longrightarrow>
          dx (ball (game (update lnm rnm r w))) < 0))"
proof (intro conjI impI)
  assume hit: "overlaps (ballRectOf (beforePaddles w)) (paddleLeftRect (beforePaddles w))"
  have g: "game (update lnm rnm r w) = game (beforeScoring w)"
    using update_on_hit[OF assms] hit by simp
  show d: "dy (ball (game (update lnm rnm r w))) =
         ((ballCenterY (beforePaddles w) - paddleLeftCenterY (beforePaddles w))
            / (PADDLE_HEIGHT / 2)) * 10"
    unfolding g beforeScoring_def Let_def by (rule left_hit_ball(1)[OF hit])
  show "dy (ball (game (update lnm rnm r w))) = 0"
    if "ballCenterY (beforePaddles w) = paddleLeftCenterY (beforePaddles w)"
    using that d by simp
  show "dx (ball (game (update lnm rnm r w))) > 0"
    if "dx (ball (game w)) < 0 \<and> 0 \<le> speed (ball (game w))"
    using that unfolding g beforeScoring_def Let_def left_hit_ball(2)[OF hit]
    by (simp add: beforePaddles_ball)
next
  assume hit: "overlaps (ballRectOf (beforePaddles w)) (paddleRightRect (beforePaddles w))"
  have g: "game (update lnm rnm r w) = game (beforeScoring w)"
    using update_on_hit[OF assms] hit by simp
  show d: "dy (ball (game (update lnm rnm r w))) =
         ((ballCenterY (beforePaddles w) - paddleRightCenterY (beforePaddles w))
            / (PADDLE_HEIGHT / 2)) * 10"
    unfolding g beforeScoring_def Let_def by (rule right_hit_ball(1)[OF hit])
  show "dy (ball (game (update lnm rnm r w))) = 0"
    if "ballCenterY (beforePaddles w) = paddleRightCenterY (beforePaddles w)"
    using that d by simp
  show "dx (ball (game (update lnm rnm r w))) < 0"
    if "dx (ball (game w)) > 0 \<and> 0 \<le> speed (ball (game w))"
    using that unfolding g beforeScoring_def Let_def right_hit_ball(2)[OF hit]
    by (simp add: beforePaddles_ball)
qed

theorem paddle_hit_deflection_witness:
  "isRunning (game leftHitWorld) \<and> \<not> isGameOver (game leftHitWorld) \<and>
   mode (game leftHitWorld) \<noteq> CLIENT \<and>
   overlaps (ballRectOf (beforePaddles leftHitWorld)) (paddleLeftRect (beforePaddles leftHitWorld)) \<and>
   ballCenterY (beforePaddles leftHitWorld) = paddleLeftCenterY (beforePaddles leftHitWorld) \<and>
   dx (ball (game leftHitWorld)) < 0 \<and> dy (ball (game leftHitWorld)) = 3 \<and>
   dy (ball (game (update ''ANN'' ''CPU'' 0 leftHitWorld))) = 0 \<and>
   dx (ball (game (update ''ANN'' ''CPU'' 0 leftHitWorld))) > 0 \<and>
   overlaps (ballRectOf (beforePaddles rightHitWorld)) (paddleRightRect (beforePaddles rightHitWorld)) \<and>
   ballCenterY (beforePaddles rightHitWorld) = paddleRightCenterY (beforePaddles rightHitWorld) \<and>
   dx (ball (game rightHitWorld)) > 0 \<and>
   dy (ball (game (update ''ANN'' ''CPU'' 0 rightHitWorld))) = 0 \<and>
   dx (ball (game (update ''ANN'' ''CPU'' 0 rightHitWorld))) < 0 \<and>
   overlaps (ballRectOf (beforePaddles offCentreWorld)) (paddleLeftRect (beforePaddles offCentreWorld)) \<and>
   ballCenterY (beforePaddles offCentreWorld) - paddleLeftCenterY (beforePaddles offCentreWorld) = 10 \<and>
   dy (ball (game (update ''ANN'' ''CPU'' 0 offCentreWorld))) = 2.5"
proof -
  have h1: "isRunning (game leftHitWorld)" "\<not> isGameOver (game leftHitWorld)"
    "mode (game leftHitWorld) \<noteq> CLIENT"
    and h2: "isRunning (game rightHitWorld)" "\<not> isGameOver (game rightHitWorld)"
    "mode (game rightHitWorld) \<noteq> CLIENT"
    and h3: "isRunning (game offCentreWorld)" "\<not> isGameOver (game offCentreWorld)"
    "mode (game offCentreWorld) \<noteq> CLIENT"
    by (simp_all add: leftHitWorld_def rightHitWorld_def offCentreWorld_def singleWorld_eq
        withBall_def)
  have b: "dx (ball (game leftHitWorld)) = - 7" "dy (ball (game leftHitWorld)) = 3"
    "speed (ball (game leftHitWorld)) = 7" "dx (ball (game rightHitWorld)) = 7"
    "speed (ball (game rightHitWorld)) = 7"
    by (simp_all add: leftHitWorld_def rightHitWorld_def withBall_def)
  have o: "overlaps (ballRectOf (beforePaddles leftHitWorld))
             (paddleLeftRect (beforePaddles leftHitWorld))"
    "overlaps (ballRectOf (beforePaddles rightHitWorld))
             (paddleRightRect (beforePaddles rightHitWorld))"
    "overlaps (ballRectOf (beforePaddles offCentreWorld))
             (paddleLeftRect (beforePaddles offCentreWorld))"
    by (simp_all add: overlaps_def ballRectOf_def paddleLeftRect_def paddleRightRect_def
        leftHitWorld_before rightHitWorld_before offCentreWorld_before constants)
  have c: "ballCenterY (beforePaddles leftHitWorld) = 300"
    "paddleLeftCenterY (beforePaddles leftHitWorld) = 300"
    "ballCenterY (beforePaddles rightHitWorld) = 300"
    "paddleRightCenterY (beforePaddles rightHitWorld) = 300"
    "ballCenterY (beforePaddles offCentreWorld) = 310"
    "paddleLeftCenterY (beforePaddles offCentreWorld) = 300"
    by (simp_all add: ballCenterY_def paddleLeftCenterY_def paddleRightCenterY_def
        leftHitWorld_before rightHitWorld_before offCentreWorld_before constants)
  show ?thesis
    using h1 o paddle_hit_deflection [OF h1, of "''ANN''" "''CPU''" 0] paddle_hit_deflection [OF h2, of "''ANN''" "''CPU''" 0]
      paddle_hit_deflection [OF h3, of "''ANN''" "''CPU''" 0]
    by (simp add: b c constants)
qed

section \<open>Stopped matches (claim C10)\<close>

text \<open>
  Claim C10. A tick of \<open>update\<close> on a match state with \<open>isGameOver\<close> set or \<open>isRunning\<close>
  cleared returns the state as it was: ball, paddles, scores, flags, the user interface
  state and the logs of sounds and messages are all unchanged. The same holds for any
  number of further ticks, whatever the random values, and \<open>endGame\<close> leaves the match in
  such a state.
\<close>

theorem update_stopped_noop:
  "isGameOver (game w) \<or> \<not> isRunning (game w) \<Longrightarrow>
     update lnm rnm r w = w \<and> fold (update lnm rnm) rs w = w \<and>
     update lnm rnm r (endGame name w) = endGame name w"
  by (simp add: update_stopped fold_update_stopped endGame_flags)

theorem update_stopped_noop_witness:
  "(isGameOver (game finishedWorld) \<or> \<not> isRunning (game finishedWorld)) \<and>
   update ''ANN'' ''CPU'' 0 finishedWorld = finishedWorld \<and>
   fold (update ''ANN'' ''CPU'') [0, 1] finishedWorld = finishedWorld"
proof -
  have h: "isGameOver (game finishedWorld) \<or> \<not> isRunning (game finishedWorld)"
    by (simp add: finishedWorld_def endGame_flags)
  show ?thesis
    using h update_stopped_noop [OF h, of "''ANN''" "''CPU''" 0 "[0, 1]"] by blast
qed

end
